theory Spec2Isabelle
  imports Complex_Main "HOL-Library.Monad_Syntax"
begin

section \<open>Buffers and checked accesses\<close>

text \<open>
  The kernels of \<^verbatim>\<open>matmul.cpp\<close> work on raw buffers handed over by the binding
  layer. A buffer is a list; a pointer into it is the buffer together with an offset.
  C++ does not check an index, an access outside the buffer is undefined behaviour:
  the model makes every access checked, and \<open>None\<close> stands for an access outside the
  buffer it goes to. Integers of the source (\<^verbatim>\<open>int\<close>, \<^verbatim>\<open>size_t\<close>) are modelled as
  unbounded \<open>int\<close>; a negative offset (which the cast to \<^verbatim>\<open>size_t\<close> turns into a
  huge one) is outside every buffer.
\<close>

definition rd :: "'a list \<Rightarrow> int \<Rightarrow> 'a option" where
  "rd xs i = (if 0 \<le> i \<and> i < int (length xs) then Some (xs ! nat i) else None)"

definition wr :: "'a list \<Rightarrow> int \<Rightarrow> 'a \<Rightarrow> 'a list option" where
  "wr xs i v = (if 0 \<le> i \<and> i < int (length xs) then Some (xs[nat i := v]) else None)"

text \<open>A counted loop whose body may fail: the loop stops at the first failure.\<close>

fun for_loop :: "'i list \<Rightarrow> ('i \<Rightarrow> 's \<Rightarrow> 's option) \<Rightarrow> 's \<Rightarrow> 's option" where
  "for_loop [] body s = Some s"
| "for_loop (i # is) body s = (case body i s of None \<Rightarrow> None | Some s' \<Rightarrow> for_loop is body s')"

section \<open>The accumulate-multiply and copy primitives\<close>

text \<open>
  \<^verbatim>\<open>saxpy\<close> has two loops: the one taken when both strides are 1 and \<open>alpha\<close> is 1,
  and the strided one. \<open>x\<close> and \<open>y\<close> are pointers: a buffer and an offset.
\<close>

definition saxpy_unit :: "int \<Rightarrow> 'a::plus list \<Rightarrow> int \<Rightarrow> 'a list \<Rightarrow> int \<Rightarrow> 'a list option" where
  "saxpy_unit n x xoff y yoff =
     for_loop [0..n - 1] (\<lambda>ix y. do {
        xv \<leftarrow> rd x (xoff + ix);
        yv \<leftarrow> rd y (yoff + ix);
        wr y (yoff + ix) (yv + xv) }) y"

definition saxpy_strided :: "int \<Rightarrow> 'a::{plus,times} \<Rightarrow> 'a list \<Rightarrow> int \<Rightarrow> int \<Rightarrow> 'a list \<Rightarrow> int \<Rightarrow> int \<Rightarrow> 'a list option" where
  "saxpy_strided n alpha x xoff inc_x y yoff inc_y =
     for_loop [0..n - 1] (\<lambda>ix y. do {
        xv \<leftarrow> rd x (xoff + ix * inc_x);
        yv \<leftarrow> rd y (yoff + ix * inc_y);
        wr y (yoff + ix * inc_y) (yv + alpha * xv) }) y"

definition saxpy :: "int \<Rightarrow> 'a::{plus,times,one} \<Rightarrow> 'a list \<Rightarrow> int \<Rightarrow> int \<Rightarrow> 'a list \<Rightarrow> int \<Rightarrow> int \<Rightarrow> 'a list option" where
  "saxpy n alpha x xoff inc_x y yoff inc_y =
     (if inc_x = 1 \<and> inc_y = 1 \<and> alpha = 1 then saxpy_unit n x xoff y yoff
      else saxpy_strided n alpha x xoff inc_x y yoff inc_y)"

text \<open>
  \<^verbatim>\<open>scopy\<close>, the strided copy behind \<^verbatim>\<open>tcopy\<close>.
\<close>

definition scopy :: "int \<Rightarrow> 'a list \<Rightarrow> int \<Rightarrow> int \<Rightarrow> 'a list \<Rightarrow> int \<Rightarrow> int \<Rightarrow> 'a list option" where
  "scopy n x xoff inc_x y yoff inc_y =
     for_loop [0..n - 1] (\<lambda>ix y. do {
        xv \<leftarrow> rd x (xoff + ix * inc_x);
        wr y (yoff + ix * inc_y) xv }) y"

text \<open>
  The overloads of \<^verbatim>\<open>axpy\<close> differ in the precision of \<open>alpha\<close> and of the dense
  elements: \<open>alpha\<close> is converted once to the element type (\<open>narrow\<close>, the identity
  for the double-precision kernels) and the loop runs in the element type. The
  double-precision overloads call the BLAS routine \<^verbatim>\<open>daxpy\<close>, which is not part of the
  file; it is modelled by the same update \<open>y[i*incy] += alpha * x[i*incx]\<close>.
\<close>

definition axpy :: "('v \<Rightarrow> 'a::{plus,times,one}) \<Rightarrow> int \<Rightarrow> 'v \<Rightarrow> 'a list \<Rightarrow> int \<Rightarrow> int \<Rightarrow> 'a list \<Rightarrow> int \<Rightarrow> int \<Rightarrow> 'a list option" where
  "axpy narrow n alpha x xoff inc_x y yoff inc_y = saxpy n (narrow alpha) x xoff inc_x y yoff inc_y"

definition tcopy :: "int \<Rightarrow> 'a list \<Rightarrow> int \<Rightarrow> int \<Rightarrow> 'a list \<Rightarrow> int \<Rightarrow> int \<Rightarrow> 'a list option" where
  "tcopy n x xoff inc_x y yoff inc_y = scopy n x xoff inc_x y yoff inc_y"

section \<open>Sparse rows times a dense row-major matrix\<close>

text \<open>
  \<^verbatim>\<open>gemm_csr_drm_as_drm\<close>: \<open>X <- A*B + X\<close> with \<open>A\<close> in CSR form, \<open>B\<close> and \<open>X\<close>
  dense row-major with leading dimensions \<open>ldb\<close> and \<open>ldc\<close>. The OpenMP pragma and the
  thread count it takes are not part of the model: the loop over the rows runs in order.
\<close>

definition gemm_csr_drm_as_drm ::
  "('v \<Rightarrow> 'a::{plus,times,one}) \<Rightarrow> int \<Rightarrow> int \<Rightarrow> int list \<Rightarrow> int list \<Rightarrow> 'v list \<Rightarrow>
     'a list \<Rightarrow> int \<Rightarrow> 'a list \<Rightarrow> int \<Rightarrow> 'a list option" where
  "gemm_csr_drm_as_drm narrow m n indptr indices values DenseMat ldb OutputMat ldc =
     (if m \<le> 0 then Some OutputMat
      else do {
        p0 \<leftarrow> rd indptr 0;
        pm \<leftarrow> rd indptr m;
        if p0 = pm then Some OutputMat
        else for_loop [0..m - 1] (\<lambda>row Out. do {
            lo \<leftarrow> rd indptr row;
            hi \<leftarrow> rd indptr (row + 1);
            for_loop [lo..hi - 1] (\<lambda>col Out. do {
                v \<leftarrow> rd values col;
                c \<leftarrow> rd indices col;
                axpy narrow n v DenseMat (c * ldb) 1 Out (row * ldc) 1 }) Out }) OutputMat })"

text \<open>
  \<^verbatim>\<open>gemm_csr_drm_as_dcm\<close>: the output is column-major, each row is accumulated in a
  scratch buffer and copied with stride \<open>ldc\<close>. The state of the loop is the output and
  the scratch buffer \<^verbatim>\<open>temp_arr\<close>, \<open>None\<close> while the pointer is null;
  \<open>gemm_csr_drm_as_dcm_row\<close> is the body of the loop over the rows.
  \<^verbatim>\<open>new real_t[ldc]\<close> leaves the elements uninitialised: \<open>junk\<close> stands for what
  they hold. \<^verbatim>\<open>memset\<close> over \<open>ldb\<close> elements is a loop of \<open>ldb\<close> writes of zero.
\<close>

definition memset_zero :: "'a::zero list \<Rightarrow> int \<Rightarrow> 'a list option" where
  "memset_zero buf cnt = for_loop [0..cnt - 1] (\<lambda>ix buf. wr buf ix 0) buf"

definition gemm_csr_drm_as_dcm_row ::
  "('v \<Rightarrow> 'a::{zero,plus,times,one}) \<Rightarrow> 'a \<Rightarrow> int \<Rightarrow> int list \<Rightarrow> int list \<Rightarrow> 'v list \<Rightarrow>
     'a list \<Rightarrow> int \<Rightarrow> int \<Rightarrow> int \<Rightarrow> 'a list \<times> 'a list option \<Rightarrow> ('a list \<times> 'a list option) option" where
  "gemm_csr_drm_as_dcm_row narrow junk n indptr indices values DenseMat ldb ldc row st =
     (case st of (Out, temp_arr) \<Rightarrow> do {
        lo \<leftarrow> rd indptr row;
        hi \<leftarrow> rd indptr (row + 1);
        if lo < hi then do {
          write_ptr \<leftarrow> Some (case temp_arr of None \<Rightarrow> replicate (nat ldc) junk | Some buf \<Rightarrow> buf);
          write_ptr \<leftarrow> memset_zero write_ptr ldb;
          write_ptr \<leftarrow> for_loop [lo..hi - 1] (\<lambda>ix write_ptr. do {
              v \<leftarrow> rd values ix;
              c \<leftarrow> rd indices ix;
              axpy narrow n v DenseMat (c * ldb) 1 write_ptr 0 1 }) write_ptr;
          Out \<leftarrow> tcopy n write_ptr 0 1 Out row ldc;
          Some (Out, Some write_ptr) }
        else Some (Out, temp_arr) })"

definition gemm_csr_drm_as_dcm ::
  "('v \<Rightarrow> 'a::{zero,plus,times,one}) \<Rightarrow> 'a \<Rightarrow> int \<Rightarrow> int \<Rightarrow> int list \<Rightarrow> int list \<Rightarrow> 'v list \<Rightarrow>
     'a list \<Rightarrow> int \<Rightarrow> 'a list \<Rightarrow> int \<Rightarrow> 'a list option" where
  "gemm_csr_drm_as_dcm narrow junk m n indptr indices values DenseMat ldb OutputMat ldc =
     (if m \<le> 0 then Some OutputMat
      else do {
        p0 \<leftarrow> rd indptr 0;
        pm \<leftarrow> rd indptr m;
        if p0 = pm then Some OutputMat
        else map_option fst
          (for_loop [0..m - 1]
             (gemm_csr_drm_as_dcm_row narrow junk n indptr indices values DenseMat ldb ldc)
             (OutputMat, None)) })"

section \<open>Doubles with the missing value\<close>

text \<open>
  The vectors the kernels return hold R doubles, where \<^verbatim>\<open>NA_REAL\<close> marks a missing
  value. Values are idealised as real numbers (rounding, infinities and the other NaNs
  are not modelled) together with \<open>NA_REAL\<close>, which every sum and product with a
  missing operand returns.
\<close>

datatype rdouble = Val real | NA_REAL

instantiation rdouble :: "{zero,one,plus,times}"
begin

definition zero_rdouble :: rdouble where
  "zero_rdouble = Val 0"

definition one_rdouble :: rdouble where
  "one_rdouble = Val 1"

fun plus_rdouble :: "rdouble \<Rightarrow> rdouble \<Rightarrow> rdouble" where
  "plus_rdouble (Val a) (Val b) = Val (a + b)"
| "plus_rdouble _ _ = NA_REAL"

fun times_rdouble :: "rdouble \<Rightarrow> rdouble \<Rightarrow> rdouble" where
  "times_rdouble (Val a) (Val b) = Val (a * b)"
| "times_rdouble _ _ = NA_REAL"

instance ..

end

text \<open>
  Modelled from the spec: the missing sentinel of integer and logical vectors, which the
  file takes from the R headers (\<^verbatim>\<open>NA_INTEGER\<close>, \<^verbatim>\<open>NA_LOGICAL\<close>): the smallest 32-bit
  integer for both.
\<close>

definition NA_INTEGER :: int where
  "NA_INTEGER = - 2147483648"

definition NA_LOGICAL :: int where
  "NA_LOGICAL = NA_INTEGER"

section \<open>Sparse rows times a dense vector\<close>

text \<open>
  \<^verbatim>\<open>matmul_csr_dvec\<close> is a template over the type of the dense vector and the type
  of the output. The two places where the instances differ are parameters of the
  model: \<open>contrib\<close>, the term the branch chosen by \<^verbatim>\<open>std::is_same\<close> computes from the
  dense element and the sparse value, and \<open>accum\<close>, the update \<^verbatim>\<open>val += term\<close> in the
  output type. An empty \<open>indptr\<close> asks for an output of length -1, which R refuses.
\<close>

definition matmul_csr_dvec ::
  "('y \<Rightarrow> 'd \<Rightarrow> 'd) \<Rightarrow> ('o \<Rightarrow> 'd \<Rightarrow> 'o) \<Rightarrow> 'o \<Rightarrow> int list \<Rightarrow> int list \<Rightarrow> 'd list \<Rightarrow> 'y list \<Rightarrow> 'o list option" where
  "matmul_csr_dvec contrib accum zero X_csr_indptr X_csr_indices X_csr_values y_dense =
     (if X_csr_indptr = [] then None
      else let nrows = int (length X_csr_indptr) - 1 in
        for_loop [0..nrows - 1] (\<lambda>row out. do {
            lo \<leftarrow> rd X_csr_indptr row;
            hi \<leftarrow> rd X_csr_indptr (row + 1);
            val \<leftarrow> for_loop [lo..hi - 1] (\<lambda>ix val. do {
                c \<leftarrow> rd X_csr_indices ix;
                yv \<leftarrow> rd y_dense c;
                xv \<leftarrow> rd X_csr_values ix;
                Some (accum val (contrib yv xv)) }) zero;
            wr out row val }) (replicate (nat nrows) zero))"

definition matmul_csr_dvec_numeric ::
  "int list \<Rightarrow> int list \<Rightarrow> 'd::{zero,plus,times} list \<Rightarrow> 'd list \<Rightarrow> 'd list option" where
  "matmul_csr_dvec_numeric = matmul_csr_dvec (\<lambda>yv xv. xv * yv) (\<lambda>val t. val + t) 0"

definition matmul_csr_dvec_integer ::
  "int list \<Rightarrow> int list \<Rightarrow> rdouble list \<Rightarrow> int list \<Rightarrow> rdouble list option" where
  "matmul_csr_dvec_integer =
     matmul_csr_dvec (\<lambda>yv xv. if yv = NA_INTEGER then NA_REAL else xv * Val (real_of_int yv))
       (\<lambda>val t. val + t) 0"

definition matmul_csr_dvec_logical ::
  "int list \<Rightarrow> int list \<Rightarrow> rdouble list \<Rightarrow> int list \<Rightarrow> rdouble list option" where
  "matmul_csr_dvec_logical =
     matmul_csr_dvec (\<lambda>yv xv. if yv = NA_LOGICAL then NA_REAL else xv * (if yv \<noteq> 0 then 1 else 0))
       (\<lambda>val t. val + t) 0"

text \<open>
  The single-precision instance: the output type is \<^verbatim>\<open>float\<close>, so the accumulator
  \<^verbatim>\<open>val\<close> is a \<^verbatim>\<open>float\<close>. The product of the double-precision sparse value and the
  dense element is formed in double precision (\<open>widen\<close> converts the \<^verbatim>\<open>float\<close>), it is
  added to the accumulator in double precision, and the assignment converts the sum
  back to \<^verbatim>\<open>float\<close> (\<open>narrow\<close>).
\<close>

definition matmul_csr_dvec_float32 ::
  "('f \<Rightarrow> 'd) \<Rightarrow> ('d \<Rightarrow> 'f) \<Rightarrow> int list \<Rightarrow> int list \<Rightarrow> 'd::{plus,times} list \<Rightarrow> 'f::zero list \<Rightarrow> 'f list option" where
  "matmul_csr_dvec_float32 widen narrow =
     matmul_csr_dvec (\<lambda>yv xv. xv * widen yv) (\<lambda>val t. narrow (widen val + t)) 0"


section \<open>Sparse rows times a sparse vector\<close>

text \<open>
  Pointers into the index arrays are offsets; \<open>ptr\<close> forms \<^verbatim>\<open>base + i\<close>, which C++
  defines only up to one past the end of the array.
\<close>

definition ptr :: "'a list \<Rightarrow> int \<Rightarrow> nat option" where
  "ptr xs i = (if 0 \<le> i \<and> i \<le> int (length xs) then Some (nat i) else None)"

text \<open>
  \<^verbatim>\<open>std::lower_bound\<close> is the C++ library's, not part of the file. It is modelled by
  what the standard says it returns on a range sorted ascending: the first position in
  \<open>[first, stop)\<close> whose element is not less than the value, or the end \<open>stop\<close>.
\<close>

function lower_bound :: "int list \<Rightarrow> nat \<Rightarrow> nat \<Rightarrow> int \<Rightarrow> nat" where
  "lower_bound xs first stop v =
     (if first < stop \<and> xs ! first < v then lower_bound xs (Suc first) stop v else first)"
  by pat_completeness auto
termination
  by (relation "measure (\<lambda>(xs, first, stop, v). stop - first)") auto

declare lower_bound.simps [simp del]

text \<open>
  The \<^verbatim>\<open>while (true)\<close> loop of one row. \<open>ptr1\<close> and \<open>ptr2\<close> are the cursors into the
  indices of the row and of the vector. \<open>tm\<close> computes, from the two positions of a
  match, the term the branch chosen by \<^verbatim>\<open>std::is_same\<close> adds to \<^verbatim>\<open>out[row]\<close>.
\<close>

declare Option.bind_cong [fundef_cong]

function svec_loop ::
  "(nat \<Rightarrow> nat \<Rightarrow> 'd option) \<Rightarrow> int list \<Rightarrow> int list \<Rightarrow> int \<Rightarrow> nat \<Rightarrow> nat \<Rightarrow> nat \<Rightarrow> nat \<Rightarrow>
     'd::plus list \<Rightarrow> 'd list option" where
  "svec_loop tm X_ind y_ind row end1 end_y ptr1 ptr2 out =
     (if ptr1 \<ge> end1 \<or> ptr2 \<ge> end_y then Some out
      else do {
        a \<leftarrow> rd X_ind (int ptr1);
        b \<leftarrow> rd y_ind (int ptr2);
        if a = b - 1 then do {
          t \<leftarrow> tm ptr1 ptr2;
          v \<leftarrow> rd out row;
          out' \<leftarrow> wr out row (v + t);
          svec_loop tm X_ind y_ind row end1 end_y (ptr1 + 1) (ptr2 + 1) out' }
        else if b - 1 > a then
          svec_loop tm X_ind y_ind row end1 end_y (lower_bound X_ind ptr1 end1 (b - 1)) ptr2 out
        else
          svec_loop tm X_ind y_ind row end1 end_y ptr1 (lower_bound y_ind ptr2 end_y (a + 1)) out })"
  by pat_completeness auto
termination
proof -
  have lower_bound_range:
    "first \<le> stop \<Longrightarrow> first \<le> lower_bound xs first stop v \<and> lower_bound xs first stop v \<le> stop"
    for xs first stop v
  proof (induction xs first stop v rule: lower_bound.induct)
    case (1 xs first stop v)
    show ?case
    proof (cases "first < stop \<and> xs ! first < v")
      case True
      then have "Suc first \<le> lower_bound xs (Suc first) stop v \<and> lower_bound xs (Suc first) stop v \<le> stop"
        using "1.IH" by simp
      then show ?thesis using True by (subst (1 2) lower_bound.simps) simp
    next
      case False
      then show ?thesis using "1.prems" by (subst (1 2) lower_bound.simps) auto
    qed
  qed
  show ?thesis
  proof (relation "measure (\<lambda>(tm, X_ind, y_ind, row, end1, end_y, ptr1, ptr2, out). (end1 - ptr1) + (end_y - ptr2))")
    show "wf (measure (\<lambda>(tm, X_ind, y_ind, row, end1, end_y, ptr1, ptr2, out). (end1 - ptr1) + (end_y - ptr2)))"
      by simp
  next
    fix tm :: "nat \<Rightarrow> nat \<Rightarrow> 'd option" and X_ind y_ind :: "int list" and row :: int
      and end1 end_y ptr1 ptr2 :: nat and out out' :: "'d list" and a b :: int and t v :: 'd
    assume "\<not> (end1 \<le> ptr1 \<or> end_y \<le> ptr2)"
    then show "((tm, X_ind, y_ind, row, end1, end_y, ptr1 + 1, ptr2 + 1, out'),
                (tm, X_ind, y_ind, row, end1, end_y, ptr1, ptr2, out))
        \<in> measure (\<lambda>(tm, X_ind, y_ind, row, end1, end_y, ptr1, ptr2, out). (end1 - ptr1) + (end_y - ptr2))"
      by (simp only: in_measure prod.case; linarith)
  next
    fix tm :: "nat \<Rightarrow> nat \<Rightarrow> 'd option" and X_ind y_ind :: "int list" and row :: int
      and end1 end_y ptr1 ptr2 :: nat and out :: "'d list" and a b :: int
    assume c: "\<not> (end1 \<le> ptr1 \<or> end_y \<le> ptr2)" and r: "rd X_ind (int ptr1) = Some a" and g: "a < b - 1"
    have "X_ind ! ptr1 = a" using r by (auto simp: rd_def split: if_splits)
    then have s: "lower_bound X_ind ptr1 end1 (b - 1) = lower_bound X_ind (Suc ptr1) end1 (b - 1)"
      using c g by (subst lower_bound.simps) simp
    have "Suc ptr1 \<le> lower_bound X_ind (Suc ptr1) end1 (b - 1)
        \<and> lower_bound X_ind (Suc ptr1) end1 (b - 1) \<le> end1"
      using c by (intro lower_bound_range) simp
    then show "((tm, X_ind, y_ind, row, end1, end_y, lower_bound X_ind ptr1 end1 (b - 1), ptr2, out),
                (tm, X_ind, y_ind, row, end1, end_y, ptr1, ptr2, out))
        \<in> measure (\<lambda>(tm, X_ind, y_ind, row, end1, end_y, ptr1, ptr2, out). (end1 - ptr1) + (end_y - ptr2))"
      using c unfolding s by (simp only: in_measure prod.case; linarith)
  next
    fix tm :: "nat \<Rightarrow> nat \<Rightarrow> 'd option" and X_ind y_ind :: "int list" and row :: int
      and end1 end_y ptr1 ptr2 :: nat and out :: "'d list" and a b :: int
    assume c: "\<not> (end1 \<le> ptr1 \<or> end_y \<le> ptr2)" and r: "rd y_ind (int ptr2) = Some b"
      and n: "a \<noteq> b - 1" and g: "\<not> a < b - 1"
    have "y_ind ! ptr2 = b" using r by (auto simp: rd_def split: if_splits)
    then have s: "lower_bound y_ind ptr2 end_y (a + 1) = lower_bound y_ind (Suc ptr2) end_y (a + 1)"
      using c n g by (subst lower_bound.simps) simp
    have "Suc ptr2 \<le> lower_bound y_ind (Suc ptr2) end_y (a + 1)
        \<and> lower_bound y_ind (Suc ptr2) end_y (a + 1) \<le> end_y"
      using c by (intro lower_bound_range) simp
    then show "((tm, X_ind, y_ind, row, end1, end_y, ptr1, lower_bound y_ind ptr2 end_y (a + 1), out),
                (tm, X_ind, y_ind, row, end1, end_y, ptr1, ptr2, out))
        \<in> measure (\<lambda>(tm, X_ind, y_ind, row, end1, end_y, ptr1, ptr2, out). (end1 - ptr1) + (end_y - ptr2))"
      using c unfolding s by (simp only: in_measure prod.case; linarith)
  qed
qed

declare svec_loop.simps [simp del]

text \<open>
  \<^verbatim>\<open>matmul_csr_svec\<close>: the output starts as zeros; with an empty vector it is returned
  at once.
\<close>

definition matmul_csr_svec ::
  "(nat \<Rightarrow> nat \<Rightarrow> 'd option) \<Rightarrow> int list \<Rightarrow> int list \<Rightarrow> int list \<Rightarrow> 'd::{zero,plus} list option" where
  "matmul_csr_svec tm X_csr_indptr X_csr_indices y_indices_base1 =
     (if X_csr_indptr = [] then None
      else let nrows = int (length X_csr_indptr) - 1; out = replicate (nat nrows) 0 in
        if length y_indices_base1 = 0 then Some out
        else for_loop [0..nrows - 1] (\<lambda>row out. do {
            lo \<leftarrow> rd X_csr_indptr row;
            hi \<leftarrow> rd X_csr_indptr (row + 1);
            ptr1 \<leftarrow> ptr X_csr_indices lo;
            end1 \<leftarrow> ptr X_csr_indices hi;
            svec_loop tm X_csr_indices y_indices_base1 row end1 (length y_indices_base1) ptr1 0 out }) out)"


definition matmul_csr_svec_integer ::
  "int list \<Rightarrow> int list \<Rightarrow> rdouble list \<Rightarrow> int list \<Rightarrow> int list \<Rightarrow> rdouble list option" where
  "matmul_csr_svec_integer X_csr_indptr X_csr_indices X_csr_values y_indices_base1 y_values =
     matmul_csr_svec (\<lambda>p1 p2. do {
          yv \<leftarrow> rd y_values (int p2);
          if yv = NA_INTEGER then Some NA_REAL
          else do { xv \<leftarrow> rd X_csr_values (int p1); Some (xv * Val (real_of_int yv)) } })
       X_csr_indptr X_csr_indices y_indices_base1"

definition matmul_csr_svec_logical ::
  "int list \<Rightarrow> int list \<Rightarrow> rdouble list \<Rightarrow> int list \<Rightarrow> int list \<Rightarrow> rdouble list option" where
  "matmul_csr_svec_logical X_csr_indptr X_csr_indices X_csr_values y_indices_base1 y_values =
     matmul_csr_svec (\<lambda>p1 p2. do {
          yv \<leftarrow> rd y_values (int p2);
          if yv = NA_LOGICAL then Some NA_REAL
          else do { xv \<leftarrow> rd X_csr_values (int p1); Some (xv * (if yv \<noteq> 0 then 1 else 0)) } })
       X_csr_indptr X_csr_indices y_indices_base1"

definition matmul_csr_svec_binary ::
  "int list \<Rightarrow> int list \<Rightarrow> 'd::{zero,plus} list \<Rightarrow> int list \<Rightarrow> 'd list option" where
  "matmul_csr_svec_binary X_csr_indptr X_csr_indices X_csr_values y_indices_base1 =
     matmul_csr_svec (\<lambda>p1 p2. rd X_csr_values (int p1)) X_csr_indptr X_csr_indices y_indices_base1"

definition matmul_csr_svec_float32 ::
  "('f \<Rightarrow> 'd) \<Rightarrow> int list \<Rightarrow> int list \<Rightarrow> 'd::{zero,plus,times} list \<Rightarrow> int list \<Rightarrow> 'f list \<Rightarrow> 'd list option" where
  "matmul_csr_svec_float32 widen X_csr_indptr X_csr_indices X_csr_values y_indices_base1 y_values =
     matmul_csr_svec (\<lambda>p1 p2. do {
          yv \<leftarrow> rd y_values (int p2);
          xv \<leftarrow> rd X_csr_values (int p1);
          Some (xv * widen yv) })
       X_csr_indptr X_csr_indices y_indices_base1"

section \<open>Dense column times sparse column, and sparse column times sparse column\<close>

text \<open>
  \<^verbatim>\<open>std::iota(first, first + cnt, start)\<close> on the positions of an integer buffer.
\<close>

definition iota :: "int list \<Rightarrow> int \<Rightarrow> int \<Rightarrow> int \<Rightarrow> int list option" where
  "iota buf first cnt start = for_loop [0..cnt - 1] (\<lambda>j buf. wr buf (first + j) (start + j)) buf"

text \<open>
  \<^verbatim>\<open>matmul_colvec_by_scolvecascsr_template\<close>. The state of the first loop is the three
  output arrays and \<^verbatim>\<open>ncurr\<close>; all three arrays start as zeros. The values are computed
  in the element type of the dense vector (\<open>narrow\<close> converts the weight) and returned
  as doubles (\<open>widen\<close>); both are the identity in the double-precision instance.
\<close>

definition matmul_colvec_by_scolvecascsr_template ::
  "('v \<Rightarrow> 'a::{zero,one,plus,times}) \<Rightarrow> ('a \<Rightarrow> 'v) \<Rightarrow> 'a list \<Rightarrow> int list \<Rightarrow> int list \<Rightarrow> 'v list \<Rightarrow>
     (int list \<times> int list \<times> 'v list) option" where
  "matmul_colvec_by_scolvecascsr_template narrow widen colvec indptr indices values =
     (if indptr = [] then None
      else let dim = int (length colvec); dim2 = int (length indptr) - 1;
               nnz = int (length indices); nnz_out = nnz * dim in do {
        (out_csr_indptr, out_csr_indices, out_csr_values, ncurr) \<leftarrow>
          for_loop [0..dim2 - 1] (\<lambda>ix (out_csr_indptr, out_csr_indices, out_csr_values, ncurr). do {
              lo \<leftarrow> rd indptr ix;
              hi \<leftarrow> rd indptr (ix + 1);
              if lo < hi then do {
                out_csr_indptr \<leftarrow> wr out_csr_indptr (ix + 1) dim;
                w \<leftarrow> rd values lo;
                out_csr_values \<leftarrow> axpy narrow dim w colvec 0 1 out_csr_values ncurr 1;
                out_csr_indices \<leftarrow> iota out_csr_indices ncurr dim 0;
                Some (out_csr_indptr, out_csr_indices, out_csr_values, ncurr + dim) }
              else Some (out_csr_indptr, out_csr_indices, out_csr_values, ncurr) })
            (replicate (nat (dim2 + 1)) 0, replicate (nat nnz_out) 0, replicate (nat nnz_out) 0, 0);
        out_csr_indptr \<leftarrow>
          for_loop [0..dim2 - 1] (\<lambda>ix out_csr_indptr. do {
              a \<leftarrow> rd out_csr_indptr (ix + 1);
              b \<leftarrow> rd out_csr_indptr ix;
              wr out_csr_indptr (ix + 1) (a + b) }) out_csr_indptr;
        Some (out_csr_indptr, out_csr_indices, map widen out_csr_values) })"

definition matmul_colvec_by_scolvecascsr ::
  "'v::{zero,one,plus,times} list \<Rightarrow> int list \<Rightarrow> int list \<Rightarrow> 'v list \<Rightarrow> (int list \<times> int list \<times> 'v list) option" where
  "matmul_colvec_by_scolvecascsr = matmul_colvec_by_scolvecascsr_template (\<lambda>v. v) (\<lambda>v. v)"

text \<open>
  \<^verbatim>\<open>matmul_spcolvec_by_scolvecascsr\<close>. \<open>y_values\<close> is \<open>None\<close> in the binary instance,
  which passes a null pointer and never reads it. \<open>push\<close> is the value the branch
  chosen by \<^verbatim>\<open>std::is_same\<close> appends, from \<^verbatim>\<open>yval\<close> and the first stored value of the
  row. The two \<^verbatim>\<open>std::vector\<close>s grow by \<^verbatim>\<open>push_back\<close>.
\<close>

definition matmul_spcolvec_by_scolvecascsr ::
  "('y option \<Rightarrow> 'd \<Rightarrow> 'd) \<Rightarrow> int list \<Rightarrow> int list \<Rightarrow> 'd list \<Rightarrow> int list \<Rightarrow> 'y list option \<Rightarrow> int \<Rightarrow>
     (int list \<times> int list \<times> 'd list) option" where
  "matmul_spcolvec_by_scolvecascsr push X_csr_indptr X_csr_indices X_csr_values y_indices_base1 y_values y_length =
     (if X_csr_indptr = [] \<or> y_length + 1 < 0 then None
      else let dim2 = int (length X_csr_indptr) - 1; nnz_y = int (length y_indices_base1) in do {
        (out_csc_indptr, out_csc_indices, out_csc_values) \<leftarrow>
          for_loop [0..nnz_y - 1] (\<lambda>ix (out_csc_indptr, out_csc_indices, out_csc_values). do {
              yi \<leftarrow> rd y_indices_base1 ix;
              yval \<leftarrow> (case y_values of None \<Rightarrow> Some None
                        | Some ys \<Rightarrow> map_option Some (rd ys (yi - 1)));
              (out_csc_indices, out_csc_values, ncurr) \<leftarrow>
                for_loop [0..dim2 - 1] (\<lambda>row (out_csc_indices, out_csc_values, ncurr). do {
                    lo \<leftarrow> rd X_csr_indptr row;
                    hi \<leftarrow> rd X_csr_indptr (row + 1);
                    if lo < hi then do {
                      xv \<leftarrow> rd X_csr_values lo;
                      Some (out_csc_indices @ [row], out_csc_values @ [push yval xv], ncurr + 1) }
                    else Some (out_csc_indices, out_csc_values, ncurr) })
                  (out_csc_indices, out_csc_values, 0 :: int);
              out_csc_indptr \<leftarrow> wr out_csc_indptr (yi - 1 + 1) ncurr;
              Some (out_csc_indptr, out_csc_indices, out_csc_values) })
            (replicate (nat (y_length + 1)) 0, [], []);
        out_csc_indptr \<leftarrow>
          for_loop [0..y_length - 1] (\<lambda>ix out_csc_indptr. do {
              a \<leftarrow> rd out_csc_indptr (ix + 1);
              b \<leftarrow> rd out_csc_indptr ix;
              wr out_csc_indptr (ix + 1) (a + b) }) out_csc_indptr;
        Some (out_csc_indptr, out_csc_indices, out_csc_values) })"

definition matmul_spcolvec_by_scolvecascsr_numeric ::
  "int list \<Rightarrow> int list \<Rightarrow> 'd::times list \<Rightarrow> int list \<Rightarrow> 'd list \<Rightarrow> int \<Rightarrow> (int list \<times> int list \<times> 'd list) option" where
  "matmul_spcolvec_by_scolvecascsr_numeric X_csr_indptr X_csr_indices X_csr_values y_indices_base1 y_values y_length =
     matmul_spcolvec_by_scolvecascsr (\<lambda>yval xv. the yval * xv)
       X_csr_indptr X_csr_indices X_csr_values y_indices_base1 (Some y_values) y_length"

definition matmul_spcolvec_by_scolvecascsr_integer ::
  "int list \<Rightarrow> int list \<Rightarrow> rdouble list \<Rightarrow> int list \<Rightarrow> int list \<Rightarrow> int \<Rightarrow> (int list \<times> int list \<times> rdouble list) option" where
  "matmul_spcolvec_by_scolvecascsr_integer X_csr_indptr X_csr_indices X_csr_values y_indices_base1 y_values y_length =
     matmul_spcolvec_by_scolvecascsr
       (\<lambda>yval xv. if the yval = NA_INTEGER then NA_REAL else Val (real_of_int (the yval)) * xv)
       X_csr_indptr X_csr_indices X_csr_values y_indices_base1 (Some y_values) y_length"

definition matmul_spcolvec_by_scolvecascsr_binary ::
  "int list \<Rightarrow> int list \<Rightarrow> 'd list \<Rightarrow> int list \<Rightarrow> int \<Rightarrow> (int list \<times> int list \<times> 'd list) option" where
  "matmul_spcolvec_by_scolvecascsr_binary X_csr_indptr X_csr_indices X_csr_values y_indices_base1 y_length =
     matmul_spcolvec_by_scolvecascsr (\<lambda>yval xv. xv)
       X_csr_indptr X_csr_indices X_csr_values y_indices_base1 (None :: unit list option) y_length"

section \<open>Reference definitions for the dense product\<close>

text \<open>
  \<open>axpy_res\<close>, \<open>row_res\<close> and \<open>gemm_res\<close> describe pointwise what a call of
  \<open>axpy\<close> with unit strides, the loop over one sparse row and the loop over the first
  \<open>R\<close> rows leave in the output. \<open>row_sum\<close> is the sum over the stored entries
  \<open>(c, v)\<close> of a row of \<open>v * B[c][j]\<close>.
\<close>

definition axpy_res :: "'a::{plus,times} \<Rightarrow> 'a list \<Rightarrow> nat \<Rightarrow> 'a list \<Rightarrow> nat \<Rightarrow> nat \<Rightarrow> 'a list" where
  "axpy_res alpha x xo y yo k =
     map (\<lambda>p. if yo \<le> p \<and> p < yo + k then y ! p + alpha * x ! (xo + (p - yo)) else y ! p) [0..<length y]"

definition row_sum :: "('v \<Rightarrow> 'a::semiring_0) \<Rightarrow> int list \<Rightarrow> 'v list \<Rightarrow> 'a list \<Rightarrow> nat \<Rightarrow> nat \<Rightarrow> nat \<Rightarrow> nat \<Rightarrow> 'a" where
  "row_sum narrow indices values B LB lo q j =
     (\<Sum>t = lo..<lo + q. narrow (values ! t) * B ! (nat (indices ! t) * LB + j))"

definition row_res :: "('v \<Rightarrow> 'a::semiring_0) \<Rightarrow> int list \<Rightarrow> 'v list \<Rightarrow> 'a list \<Rightarrow> nat \<Rightarrow> nat \<Rightarrow> nat \<Rightarrow> 'a list \<Rightarrow> nat \<Rightarrow> nat \<Rightarrow> 'a list" where
  "row_res narrow indices values B LB N lo Out yo q =
     map (\<lambda>p. if yo \<le> p \<and> p < yo + N then Out ! p + row_sum narrow indices values B LB lo q (p - yo) else Out ! p)
       [0..<length Out]"

text \<open>
  A valid CSR matrix with \<open>M\<close> rows and \<open>K\<close> columns: \<open>indptr\<close> has \<open>M + 1\<close>
  entries, starts at 0, is monotone and ends at the number of stored entries; every
  index is a column. \<open>row_lo\<close> and \<open>row_cnt\<close> are the start and the number of the
  entries of a row.
\<close>

definition valid_csr :: "nat \<Rightarrow> nat \<Rightarrow> int list \<Rightarrow> int list \<Rightarrow> 'v list \<Rightarrow> bool" where
  "valid_csr M K indptr indices values \<longleftrightarrow>
     length indptr = M + 1 \<and> indptr ! 0 = 0 \<and> sorted indptr \<and> indptr ! M = int (length indices) \<and>
     length values = length indices \<and> (\<forall>c \<in> set indices. 0 \<le> c \<and> c < int K)"

definition row_lo :: "int list \<Rightarrow> nat \<Rightarrow> nat" where
  "row_lo indptr r = nat (indptr ! r)"

definition row_cnt :: "int list \<Rightarrow> nat \<Rightarrow> nat" where
  "row_cnt indptr r = nat (indptr ! (r + 1)) - nat (indptr ! r)"


text \<open>
  A dense buffer holds \<open>R\<close> rows of \<open>C\<close> elements at leading dimension \<open>ld\<close>.
\<close>

definition fits :: "nat \<Rightarrow> nat \<Rightarrow> nat \<Rightarrow> 'a list \<Rightarrow> bool" where
  "fits R C ld buf \<longleftrightarrow> C \<le> ld \<and> (R = 0 \<or> (R - 1) * ld + C \<le> length buf)"




section \<open>Reference definitions for the column-major kernel\<close>

text \<open>
  \<open>memset_res\<close>, \<open>tcopy_res\<close> and \<open>dcm_res\<close> describe pointwise what
  \<^verbatim>\<open>memset\<close> over \<open>k\<close> elements, the strided copy of \<open>k\<close> elements to the
  positions \<open>r + j * ldc\<close>, and the loop over the first \<open>R\<close> rows of
  \<open>gemm_csr_drm_as_dcm\<close> leave in their target.
\<close>

definition memset_res :: "'a::zero list \<Rightarrow> nat \<Rightarrow> 'a list" where
  "memset_res buf k = map (\<lambda>p. if p < k then 0 else buf ! p) [0..<length buf]"

definition tcopy_res :: "'a list \<Rightarrow> 'a list \<Rightarrow> nat \<Rightarrow> nat \<Rightarrow> nat \<Rightarrow> 'a list" where
  "tcopy_res x y r LC k =
     map (\<lambda>p. if p mod LC = r \<and> p div LC < k then x ! (p div LC) else y ! p) [0..<length y]"

definition dcm_res :: "('v \<Rightarrow> 'a::semiring_0) \<Rightarrow> int list \<Rightarrow> int list \<Rightarrow> 'v list \<Rightarrow> 'a list \<Rightarrow> nat \<Rightarrow> nat \<Rightarrow> nat \<Rightarrow> 'a list \<Rightarrow> nat \<Rightarrow> 'a list" where
  "dcm_res narrow indptr indices values B LB N LC Out R =
     map (\<lambda>p. if p mod LC < R \<and> p div LC < N \<and> 0 < row_cnt indptr (p mod LC)
               then row_sum narrow indices values B LB (row_lo indptr (p mod LC)) (row_cnt indptr (p mod LC)) (p div LC)
               else Out ! p) [0..<length Out]"


section \<open>What the dense-vector kernel computes\<close>

text \<open>
  \<open>dvec_row\<close> is the value the inner loop leaves in \<^verbatim>\<open>val\<close> for a row whose entries
  start at \<open>lo\<close> and number \<open>cnt\<close>; \<open>dvec_res\<close> is the output after the first \<open>R\<close>
  rows. A row touches a missing value when the dense vector holds the sentinel at the
  index of one of its stored entries.
\<close>

definition dvec_row :: "('y \<Rightarrow> 'd \<Rightarrow> 'd) \<Rightarrow> ('o \<Rightarrow> 'd \<Rightarrow> 'o) \<Rightarrow> 'o \<Rightarrow> int list \<Rightarrow> 'd list \<Rightarrow> 'y list \<Rightarrow> nat \<Rightarrow> nat \<Rightarrow> 'o" where
  "dvec_row contrib accum zero indices values y lo cnt =
     fold (\<lambda>t val. accum val (contrib (y ! nat (indices ! t)) (values ! t))) [lo..<lo + cnt] zero"

definition dvec_res :: "('y \<Rightarrow> 'd \<Rightarrow> 'd) \<Rightarrow> ('o \<Rightarrow> 'd \<Rightarrow> 'o) \<Rightarrow> 'o \<Rightarrow> int list \<Rightarrow> int list \<Rightarrow> 'd list \<Rightarrow> 'y list \<Rightarrow> nat \<Rightarrow> nat \<Rightarrow> 'o list" where
  "dvec_res contrib accum zero indptr indices values y M R =
     map (\<lambda>r. if r < R then dvec_row contrib accum zero indices values y (row_lo indptr r) (row_cnt indptr r)
               else zero) [0..<M]"


section \<open>Single precision on integers\<close>

text \<open>
  The conversion of a double that holds an integer to \<^verbatim>\<open>float\<close>, as IEEE 754 defines it
  (round to nearest, ties to even, 24 bits of significand), for magnitudes below the
  overflow threshold of \<^verbatim>\<open>float\<close>: an integer of at most 24 bits is kept, a longer one is
  rounded to a multiple of the unit in the last place. Sums and products of doubles that
  hold integers below \<open>2^53\<close> are exact, so on such values \<open>int\<close> with this conversion
  is the arithmetic of the kernel.
\<close>

function bit_length :: "int \<Rightarrow> nat" where
  "bit_length a = (if a \<le> 0 then 0 else Suc (bit_length (a div 2)))"
  by pat_completeness auto
termination
  by (relation "measure nat") auto

declare bit_length.simps [simp del]

definition float32_of_int :: "int \<Rightarrow> int" where
  "float32_of_int v =
     (let a = \<bar>v\<bar>; len = bit_length a in
      if len \<le> 24 then v
      else let ulp = 2 ^ (len - 24); q = a div ulp; r = a mod ulp; half = ulp div 2;
               q' = (if r < half then q else if half < r then q + 1 else if even q then q else q + 1)
           in sgn v * (q' * ulp))"

text \<open>
  The single-precision kernel as the specification words it: each row accumulated in the
  wider type, double precision, and the sum converted to \<^verbatim>\<open>float\<close> when the result is
  produced.
\<close>

definition matmul_csr_dvec_float32_wide ::
  "('f \<Rightarrow> 'd) \<Rightarrow> ('d \<Rightarrow> 'f) \<Rightarrow> int list \<Rightarrow> int list \<Rightarrow> 'd::{zero,plus,times} list \<Rightarrow> 'f list \<Rightarrow> 'f list option" where
  "matmul_csr_dvec_float32_wide widen narrow indptr indices values y =
     map_option (map narrow)
       (matmul_csr_dvec (\<lambda>yv xv. xv * widen yv) (\<lambda>val t. val + t) 0 indptr indices values y)"

section \<open>Reference definitions for the sparse dot product\<close>







section \<open>Reference definitions for the outer-product kernels\<close>








text \<open>
  Two value arrays of the same length agree on the first stored value of every row
  that has stored entries.
\<close>

definition agree_on_first :: "int list \<Rightarrow> 'v list \<Rightarrow> 'v list \<Rightarrow> bool" where
  "agree_on_first indptr vs vs' \<longleftrightarrow>
     length vs' = length vs
   \<and> (\<forall>r \<in> set [0..<length indptr - 1].
        indptr ! r < indptr ! (r + 1) \<longrightarrow> vs' ! nat (indptr ! r) = vs ! nat (indptr ! r))"

section \<open>Loops and primitives: what they compute\<close>

lemma for_loop_append:
  "for_loop (xs @ ys) body s = Option.bind (for_loop xs body s) (for_loop ys body)"
  by (induction xs arbitrary: s) (auto split: option.splits)

lemma for_loop_count:
  assumes "I 0 s"
    and "\<And>j t. j < k \<Longrightarrow> I j t \<Longrightarrow> \<exists>t'. body (lo + int j) t = Some t' \<and> I (Suc j) t'"
  shows "\<exists>s'. for_loop [lo..lo + int k - 1] body s = Some s' \<and> I k s'"
  using assms
proof (induction k)
  case 0
  then show ?case by simp
next
  case (Suc k)
  from Suc.IH [OF Suc.prems(1)] Suc.prems(2)
  obtain s1 where s1: "for_loop [lo..lo + int k - 1] body s = Some s1" "I k s1"
    by force
  from Suc.prems(2) [of k s1] s1(2)
  obtain s2 where s2: "body (lo + int k) s1 = Some s2" "I (Suc k) s2"
    by auto
  have "[lo..lo + int (Suc k) - 1] = [lo..lo + int k - 1] @ [lo + int k]"
    using upto_rec2 [of lo "lo + int k"] by simp
  then show ?case using s1 s2 by (simp add: for_loop_append)
qed

lemma rd_nat: "k < length xs \<Longrightarrow> rd xs (int k) = Some (xs ! k)"
  by (simp add: rd_def)

lemma wr_nat: "k < length xs \<Longrightarrow> wr xs (int k) v = Some (xs[k := v])"
  by (simp add: wr_def)

lemma axpy_res_0: "axpy_res alpha x xo y yo 0 = y"
  by (auto simp: axpy_res_def intro!: nth_equalityI)

lemma length_axpy_res: "length (axpy_res alpha x xo y yo k) = length y"
  by (simp add: axpy_res_def)

lemma axpy_res_Suc:
  assumes "yo + k < length y"
  shows "(axpy_res alpha x xo y yo k)[yo + k := axpy_res alpha x xo y yo k ! (yo + k) + alpha * x ! (xo + k)]
     = axpy_res alpha x xo y yo (Suc k)"
  using assms by (auto simp: axpy_res_def nth_list_update intro!: nth_equalityI)

lemma saxpy_strided_unit:
  assumes "xo + k \<le> length x" "yo + k \<le> length y"
  shows "saxpy_strided (int k) alpha x (int xo) 1 y (int yo) 1 = Some (axpy_res alpha x xo y yo k)"
proof -
  let ?body = "\<lambda>ix y. do {
        xv \<leftarrow> rd x (int xo + ix * 1);
        yv \<leftarrow> rd y (int yo + ix * 1);
        wr y (int yo + ix * 1) (yv + alpha * xv) }"
  have "\<exists>s'. for_loop [0..0 + int k - 1] ?body y = Some s' \<and> s' = axpy_res alpha x xo y yo k"
  proof (rule for_loop_count [where I = "\<lambda>j t. t = axpy_res alpha x xo y yo j"])
    show "y = axpy_res alpha x xo y yo 0" by (simp add: axpy_res_0)
  next
    fix j t assume j: "j < k" and t: "t = axpy_res alpha x xo y yo j"
    have 1: "rd x (int xo + int j) = Some (x ! (xo + j))"
      using rd_nat [of "xo + j" x] j assms by simp
    have 2: "rd t (int yo + int j) = Some (t ! (yo + j))"
      using rd_nat [of "yo + j" t] j assms by (simp add: t length_axpy_res)
    have 3: "wr t (int yo + int j) v = Some (t[yo + j := v])" for v
      using wr_nat [of "yo + j" t] j assms by (simp add: t length_axpy_res)
    show "\<exists>t'. ?body (0 + int j) t = Some t' \<and> t' = axpy_res alpha x xo y yo (Suc j)"
      using 1 2 3 axpy_res_Suc [of yo j y alpha x xo] j assms by (simp add: t)
  qed
  then show ?thesis by (simp add: saxpy_strided_def)
qed

lemma saxpy_unit_eq_strided:
  fixes x y :: "'a::{plus,times,one} list"
  assumes "\<And>v::'a. 1 * v = v"
  shows "saxpy_unit n x xoff y yoff = saxpy_strided n 1 x xoff 1 y yoff 1"
  by (simp add: saxpy_unit_def saxpy_strided_def assms)

lemma axpy_unit:
  fixes x y :: "'a::semiring_1 list"
  assumes "xo + k \<le> length x" "yo + k \<le> length y"
  shows "axpy narrow (int k) v x (int xo) 1 y (int yo) 1 = Some (axpy_res (narrow v) x xo y yo k)"
  using saxpy_strided_unit [OF assms] saxpy_unit_eq_strided [of "int k" x "int xo" y "int yo"]
  by (auto simp: axpy_def saxpy_def)

lemma length_row_res: "length (row_res narrow indices values B LB N lo Out yo q) = length Out"
  by (simp add: row_res_def)

lemma row_res_0: "row_res narrow indices values B LB N lo Out yo 0 = Out"
  by (auto simp: row_res_def row_sum_def intro!: nth_equalityI)

lemma row_res_Suc:
  "axpy_res (narrow (values ! (lo + q))) B (nat (indices ! (lo + q)) * LB)
      (row_res narrow indices values B LB N lo Out yo q) yo N
   = row_res narrow indices values B LB N lo Out yo (Suc q)"
  by (auto simp: axpy_res_def row_res_def row_sum_def add.assoc intro!: nth_equalityI)

lemma row_loop:
  fixes narrow :: "'v \<Rightarrow> 'a::semiring_1"
  assumes "lo + cnt \<le> length indices" "lo + cnt \<le> length values"
    and "\<And>t. lo \<le> t \<Longrightarrow> t < lo + cnt \<Longrightarrow> 0 \<le> indices ! t \<and> nat (indices ! t) * LB + N \<le> length B"
    and "yo + N \<le> length Out"
  shows "for_loop [int lo..int lo + int cnt - 1] (\<lambda>col Out. do {
                v \<leftarrow> rd values col;
                c \<leftarrow> rd indices col;
                axpy narrow (int N) v B (c * int LB) 1 Out (int yo) 1 }) Out
         = Some (row_res narrow indices values B LB N lo Out yo cnt)"
proof -
  let ?body = "\<lambda>col Out. do {
                v \<leftarrow> rd values col;
                c \<leftarrow> rd indices col;
                axpy narrow (int N) v B (c * int LB) 1 Out (int yo) 1 }"
  let ?R = "row_res narrow indices values B LB N lo Out yo"
  have "\<exists>s'. for_loop [int lo..int lo + int cnt - 1] ?body Out = Some s' \<and> s' = ?R cnt"
  proof (rule for_loop_count [where I = "\<lambda>q t. t = ?R q"])
    show "Out = ?R 0" by (simp add: row_res_0)
  next
    fix q t assume q: "q < cnt" and t: "t = ?R q"
    have 1: "rd values (int lo + int q) = Some (values ! (lo + q))"
      using rd_nat [of "lo + q" "values"] q assms by simp
    have 2: "rd indices (int lo + int q) = Some (indices ! (lo + q))"
      using rd_nat [of "lo + q" indices] q assms by simp
    from assms(3) [of "lo + q"] q
    have c: "0 \<le> indices ! (lo + q)" "nat (indices ! (lo + q)) * LB + N \<le> length B" by auto
    have 3: "indices ! (lo + q) * int LB = int (nat (indices ! (lo + q)) * LB)"
      using c(1) by simp
    have 4: "axpy narrow (int N) (values ! (lo + q)) B (indices ! (lo + q) * int LB) 1 t (int yo) 1
       = Some (axpy_res (narrow (values ! (lo + q))) B (nat (indices ! (lo + q)) * LB) t yo N)"
      unfolding 3 using axpy_unit [of "nat (indices ! (lo + q)) * LB" N B yo t narrow] c(2) assms(4)
      by (simp add: t length_row_res)
    show "\<exists>t'. ?body (int lo + int q) t = Some t' \<and> t' = ?R (Suc q)"
      using 1 2 4 by (simp add: t row_res_Suc)
  qed
  then show ?thesis by simp
qed

lemma valid_csr_row:
  assumes "valid_csr M K indptr indices values" "r < M"
  shows "indptr ! r = int (row_lo indptr r)"
    and "indptr ! (r + 1) = int (row_lo indptr r + row_cnt indptr r)"
    and "row_lo indptr r + row_cnt indptr r \<le> length indices"
    and "row_lo indptr r + row_cnt indptr r \<le> length values"
proof -
  have len: "length indptr = M + 1" and srt: "sorted indptr" and z: "indptr ! 0 = 0"
    and last: "indptr ! M = int (length indices)" and lv: "length values = length indices"
    using assms(1) by (auto simp: valid_csr_def)
  have a: "indptr ! 0 \<le> indptr ! r" using srt len assms(2) by (intro sorted_nth_mono) auto
  have b: "indptr ! r \<le> indptr ! (r + 1)" using srt len assms(2) by (intro sorted_nth_mono) auto
  have c: "indptr ! (r + 1) \<le> indptr ! M" using srt len assms(2) by (intro sorted_nth_mono) auto
  show "indptr ! r = int (row_lo indptr r)" using a z by (simp add: row_lo_def)
  show "indptr ! (r + 1) = int (row_lo indptr r + row_cnt indptr r)"
    using a b z by (simp add: row_lo_def row_cnt_def)
  show "row_lo indptr r + row_cnt indptr r \<le> length indices"
    using a b c z last by (simp add: row_lo_def row_cnt_def)
  then show "row_lo indptr r + row_cnt indptr r \<le> length values" by (simp add: lv)
qed






lemma valid_csr_index:
  assumes "valid_csr M K indptr indices values" "t < length indices"
  shows "0 \<le> indices ! t" "nat (indices ! t) < K"
proof -
  have "indices ! t \<in> set indices" using assms(2) by simp
  then have "0 \<le> indices ! t \<and> indices ! t < int K"
    using assms(1) by (simp add: valid_csr_def)
  then show "0 \<le> indices ! t" "nat (indices ! t) < K" by auto
qed











section \<open>Materialize mode: scratch buffer and empty rows\<close>

lemma for_loop_preserves:
  assumes "for_loop xs body s = Some s'" and "P s"
    and "\<And>i t t'. i \<in> set xs \<Longrightarrow> P t \<Longrightarrow> body i t = Some t' \<Longrightarrow> P t'"
  shows "P s'"
  using assms
proof (induction xs arbitrary: s)
  case Nil
  then show ?case by simp
next
  case (Cons i xs)
  from Cons.prems(1) obtain t where t: "body i s = Some t" "for_loop xs body t = Some s'"
    by (auto split: option.splits)
  have "P t" using Cons.prems(3) [of i s t] Cons.prems(2) t(1) by simp
  then show ?case using Cons.IH [OF t(2)] Cons.prems(3) by auto
qed

lemma wr_SomeD: "wr xs i v = Some ys \<Longrightarrow> 0 \<le> i \<and> i < int (length xs) \<and> ys = xs[nat i := v]"
  by (auto simp: wr_def split: if_splits)

lemma scopy_frame:
  assumes "scopy n x xoff inc_x y yoff inc_y = Some y'"
  shows "length y' = length y
       \<and> (\<forall>p<length y. (\<forall>ix. 0 \<le> ix \<and> ix < n \<longrightarrow> int p \<noteq> yoff + ix * inc_y) \<longrightarrow> y' ! p = y ! p)"
proof (rule for_loop_preserves [OF assms [unfolded scopy_def],
    where P = "\<lambda>t. length t = length y
       \<and> (\<forall>p<length y. (\<forall>ix. 0 \<le> ix \<and> ix < n \<longrightarrow> int p \<noteq> yoff + ix * inc_y) \<longrightarrow> t ! p = y ! p)"])
  show "length y = length y
       \<and> (\<forall>p<length y. (\<forall>ix. 0 \<le> ix \<and> ix < n \<longrightarrow> int p \<noteq> yoff + ix * inc_y) \<longrightarrow> y ! p = y ! p)"
    by simp
next
  fix i t t'
  assume i: "i \<in> set [0..n - 1]"
    and t: "length t = length y
       \<and> (\<forall>p<length y. (\<forall>ix. 0 \<le> ix \<and> ix < n \<longrightarrow> int p \<noteq> yoff + ix * inc_y) \<longrightarrow> t ! p = y ! p)"
    and b: "do { xv \<leftarrow> rd x (xoff + i * inc_x); wr t (yoff + i * inc_y) xv } = Some t'"
  from b obtain xv where w: "wr t (yoff + i * inc_y) xv = Some t'"
    by (auto simp: bind_eq_Some_conv)
  from wr_SomeD [OF w] have u: "0 \<le> yoff + i * inc_y" "t' = t[nat (yoff + i * inc_y) := xv]" by auto
  have irange: "0 \<le> i \<and> i < n" using i by auto
  show "length t' = length y
       \<and> (\<forall>p<length y. (\<forall>ix. 0 \<le> ix \<and> ix < n \<longrightarrow> int p \<noteq> yoff + ix * inc_y) \<longrightarrow> t' ! p = y ! p)"
  proof (intro conjI allI impI)
    show "length t' = length y" using t u by simp
  next
    fix p assume p: "p < length y" and np: "\<forall>ix. 0 \<le> ix \<and> ix < n \<longrightarrow> int p \<noteq> yoff + ix * inc_y"
    then have "int p \<noteq> yoff + i * inc_y" using irange by blast
    then have "p \<noteq> nat (yoff + i * inc_y)" using u(1) by auto
    then show "t' ! p = y ! p" using t p np u(2) by simp
  qed
qed


lemma dcm_row_empty:
  assumes "rd indptr row = Some lo" "rd indptr (row + 1) = Some hi" "\<not> lo < hi"
  shows "gemm_csr_drm_as_dcm_row narrow junk n indptr indices values B ldb ldc row st = Some st"
  using assms by (cases st) (simp add: gemm_csr_drm_as_dcm_row_def)

lemma dcm_row_frame:
  assumes s: "gemm_csr_drm_as_dcm_row narrow junk n indptr indices values B ldb (int LC) (int row) (Out, temp)
            = Some (Out', temp')"
    and row: "row < LC"
  shows "length Out' = length Out \<and> (\<forall>p<length Out. p mod LC \<noteq> row \<longrightarrow> Out' ! p = Out ! p)"
proof -
  from s obtain lo hi where lh: "rd indptr (int row) = Some lo" "rd indptr (int row + 1) = Some hi"
    by (auto simp: gemm_csr_drm_as_dcm_row_def bind_eq_Some_conv)
  show ?thesis
  proof (cases "lo < hi")
    case False
    then show ?thesis using s dcm_row_empty [OF lh False, of narrow junk n indices "values" B ldb "int LC" "(Out, temp)"]
      by simp
  next
    case True
    with s lh obtain wp where c: "tcopy n wp 0 1 Out (int row) (int LC) = Some Out'"
      by (auto simp: gemm_csr_drm_as_dcm_row_def bind_eq_Some_conv)
    note fr = scopy_frame [OF c [unfolded tcopy_def]]
    have "Out' ! p = Out ! p" if p: "p < length Out" "p mod LC \<noteq> row" for p
    proof -
      have "int p \<noteq> int row + ix * int LC" if ix: "0 \<le> ix \<and> ix < n" for ix
      proof
        assume e: "int p = int row + ix * int LC"
        have "int p = int (row + nat ix * LC)" using e ix by simp
        then have "p = row + nat ix * LC" by (simp only: of_nat_eq_iff)
        then have "p mod LC = row" using row by simp
        then show False using p(2) by simp
      qed
      then show ?thesis using fr p(1) by simp
    qed
    then show ?thesis using fr by simp
  qed
qed

lemma dcm_loop_frame:
  assumes l: "for_loop [0..int M - 1]
                (gemm_csr_drm_as_dcm_row narrow junk n indptr indices values B ldb (int LC)) (Out, temp)
              = Some (Out', temp')"
    and mlc: "M \<le> LC"
    and e: "\<And>lo hi. rd indptr (int r) = Some lo \<Longrightarrow> rd indptr (int r + 1) = Some hi \<Longrightarrow> \<not> lo < hi"
  shows "length Out' = length Out \<and> (\<forall>p<length Out. p mod LC = r \<longrightarrow> Out' ! p = Out ! p)"
proof -
  let ?P = "\<lambda>t. length (fst t) = length Out \<and> (\<forall>p<length Out. p mod LC = r \<longrightarrow> fst t ! p = Out ! p)"
  have "?P (Out', temp')"
  proof (rule for_loop_preserves [OF l, where P = ?P])
    show "?P (Out, temp)" by simp
  next
    fix i t t'
    assume im: "i \<in> set [0..int M - 1]" and t: "?P t"
      and b: "gemm_csr_drm_as_dcm_row narrow junk n indptr indices values B ldb (int LC) i t = Some t'"
    have "i = int (nat i)" "nat i < M" using im by auto
    then obtain k where k: "i = int k" "k < M" by blast
    obtain O1 T1 where t1: "t = (O1, T1)" by (cases t)
    obtain O2 T2 where t2: "t' = (O2, T2)" by (cases t')
    show "?P t'"
    proof (cases "k = r")
      case True
      from b obtain lo hi where lh: "rd indptr (int r) = Some lo" "rd indptr (int r + 1) = Some hi"
        by (auto simp: gemm_csr_drm_as_dcm_row_def bind_eq_Some_conv k True t1)
      have "t' = t"
        using b dcm_row_empty [OF lh e [OF lh], of narrow junk n indices "values" B ldb "int LC" t]
        by (simp add: k True)
      then show ?thesis using t by simp
    next
      case False
      have kl: "k < LC" using k(2) mlc by simp
      note fr = dcm_row_frame [OF b [unfolded k t1 t2] kl]
      show ?thesis using fr t False by (auto simp: t1 t2)
    qed
  qed
  then show ?thesis by simp
qed


lemma valid_csr_no_entries:
  assumes "valid_csr M K indptr indices values" "indices = []"
  shows "rd indptr 0 = Some 0" "rd indptr (int M) = Some 0"
  using assms by (auto simp: valid_csr_def rd_def)

lemma memset_zero_result:
  assumes "k \<le> length buf"
  shows "memset_zero buf (int k) = Some (memset_res buf k)"
proof -
  let ?body = "\<lambda>ix buf. wr buf ix (0 :: 'a)"
  have "\<exists>s'. for_loop [0..0 + int k - 1] ?body buf = Some s' \<and> s' = memset_res buf k"
  proof (rule for_loop_count [where I = "\<lambda>j t. t = memset_res buf j"])
    show "buf = memset_res buf 0" by (auto simp: memset_res_def intro!: nth_equalityI)
  next
    fix j t assume j: "j < k" and t: "t = memset_res buf j"
    have w: "wr t (int j) v = Some (t[j := v])" for v
      using wr_nat [of j t v] j assms by (simp add: t memset_res_def)
    have "(memset_res buf j)[j := 0] = memset_res buf (Suc j)"
      using j assms by (auto simp: memset_res_def nth_list_update less_Suc_eq intro!: nth_equalityI)
    then show "\<exists>t'. ?body (0 + int j) t = Some t' \<and> t' = memset_res buf (Suc j)"
      using w by (simp add: t)
  qed
  then show ?thesis by (simp add: memset_zero_def)
qed

lemma strided_pos:
  fixes r LC j :: nat
  assumes "r < LC"
  shows "(r + j * LC) mod LC = r" "(r + j * LC) div LC = j"
  using assms by simp_all

lemma tcopy_result:
  assumes r: "r < LC" and kx: "k \<le> length x" and ky: "\<And>j. j < k \<Longrightarrow> r + j * LC < length y"
  shows "tcopy (int k) x 0 1 y (int r) (int LC) = Some (tcopy_res x y r LC k)"
proof -
  let ?body = "\<lambda>ix y. do {
        xv \<leftarrow> rd x (0 + ix * 1);
        wr y (int r + ix * int LC) xv }"
  have "\<exists>s'. for_loop [0..0 + int k - 1] ?body y = Some s' \<and> s' = tcopy_res x y r LC k"
  proof (rule for_loop_count [where I = "\<lambda>j t. t = tcopy_res x y r LC j"])
    show "y = tcopy_res x y r LC 0" by (auto simp: tcopy_res_def intro!: nth_equalityI)
  next
    fix j t assume j: "j < k" and t: "t = tcopy_res x y r LC j"
    have 1: "rd x (int j) = Some (x ! j)" using j kx by (simp add: rd_nat)
    have "int r + int j * int LC = int (r + j * LC)" by simp
    then have w: "wr t (int r + int j * int LC) v = Some (t[r + j * LC := v])" for v
      using wr_nat [of "r + j * LC" t v] ky [OF j] by (simp add: t tcopy_res_def)
    have "(tcopy_res x y r LC j)[r + j * LC := x ! j] = tcopy_res x y r LC (Suc j)"
    proof (rule nth_equalityI)
      show "length ((tcopy_res x y r LC j)[r + j * LC := x ! j]) = length (tcopy_res x y r LC (Suc j))"
        by (simp add: tcopy_res_def)
    next
      fix p assume "p < length ((tcopy_res x y r LC j)[r + j * LC := x ! j])"
      then have p: "p < length y" by (simp add: tcopy_res_def)
      show "(tcopy_res x y r LC j)[r + j * LC := x ! j] ! p = tcopy_res x y r LC (Suc j) ! p"
      proof (cases "p = r + j * LC")
        case True
        then show ?thesis using p strided_pos [OF r, of j] by (simp add: tcopy_res_def)
      next
        case False
        have "\<not> (p mod LC = r \<and> p div LC = j)"
        proof
          assume "p mod LC = r \<and> p div LC = j"
          then have "p = r + j * LC" by (metis div_mult_mod_eq add.commute)
          then show False using False by simp
        qed
        then show ?thesis using False p by (auto simp: tcopy_res_def less_Suc_eq)
      qed
    qed
    then show "\<exists>t'. ?body (0 + int j) t = Some t' \<and> t' = tcopy_res x y r LC (Suc j)"
      using 1 w by (simp add: t)
  qed
  then show ?thesis by (simp add: tcopy_def scopy_def)
qed

lemma length_dcm_res: "length (dcm_res narrow indptr indices values B LB N LC Out R) = length Out"
  by (simp add: dcm_res_def)

lemma dcm_res_0: "dcm_res narrow indptr indices values B LB N LC Out 0 = Out"
  by (auto simp: dcm_res_def intro!: nth_equalityI)

lemma dcm_res_Suc_empty:
  assumes "row_cnt indptr R = 0"
  shows "dcm_res narrow indptr indices values B LB N LC Out (Suc R)
       = dcm_res narrow indptr indices values B LB N LC Out R"
  using assms by (auto simp: dcm_res_def less_Suc_eq intro!: nth_equalityI)

lemma dcm_res_Suc:
  fixes narrow :: "'v \<Rightarrow> 'a::semiring_1"
  assumes c: "0 < row_cnt indptr R" and nlb: "N \<le> LB" and lw: "LB \<le> length wp"
  shows "tcopy_res (row_res narrow indices values B LB N (row_lo indptr R) (memset_res wp LB) 0 (row_cnt indptr R))
           (dcm_res narrow indptr indices values B LB N LC Out R) R LC N
       = dcm_res narrow indptr indices values B LB N LC Out (Suc R)"
proof (rule nth_equalityI)
  show "length (tcopy_res (row_res narrow indices values B LB N (row_lo indptr R) (memset_res wp LB) 0 (row_cnt indptr R))
           (dcm_res narrow indptr indices values B LB N LC Out R) R LC N)
      = length (dcm_res narrow indptr indices values B LB N LC Out (Suc R))"
    by (simp add: tcopy_res_def dcm_res_def)
next
  fix p
  assume "p < length (tcopy_res (row_res narrow indices values B LB N (row_lo indptr R) (memset_res wp LB) 0 (row_cnt indptr R))
           (dcm_res narrow indptr indices values B LB N LC Out R) R LC N)"
  then have p: "p < length Out" by (simp add: tcopy_res_def dcm_res_def)
  have w: "row_res narrow indices values B LB N (row_lo indptr R) (memset_res wp LB) 0 (row_cnt indptr R) ! j
         = row_sum narrow indices values B LB (row_lo indptr R) (row_cnt indptr R) j" if "j < N" for j
    using that nlb lw by (simp add: row_res_def memset_res_def)
  show "tcopy_res (row_res narrow indices values B LB N (row_lo indptr R) (memset_res wp LB) 0 (row_cnt indptr R))
           (dcm_res narrow indptr indices values B LB N LC Out R) R LC N ! p
      = dcm_res narrow indptr indices values B LB N LC Out (Suc R) ! p"
  proof (cases "p mod LC = R \<and> p div LC < N")
    case True
    then show ?thesis using p c w [of "p div LC"] by (simp add: tcopy_res_def dcm_res_def)
  next
    case False
    then show ?thesis using p by (auto simp: tcopy_res_def dcm_res_def less_Suc_eq)
  qed
qed

text \<open>
  With \<open>n \<le> ldb \<le> ldc\<close> the scratch buffer is large enough: on a valid CSR matrix
  the kernel returns, every row with stored entries holds its sums and every other
  position of the output is as before.
\<close>

lemma gemm_dcm_result:
  fixes narrow :: "'v \<Rightarrow> 'a::semiring_1"
  assumes v: "valid_csr M K indptr indices values"
    and nlb: "N \<le> LB" and lbc: "LB \<le> LC" and mlc: "M \<le> LC"
    and fB: "\<And>c. c < K \<Longrightarrow> c * LB + N \<le> length B"
    and fO: "\<And>r j. r < M \<Longrightarrow> j < N \<Longrightarrow> r + j * LC < length Out"
  shows "gemm_csr_drm_as_dcm narrow junk (int M) (int N) indptr indices values B (int LB) Out (int LC)
    = Some (dcm_res narrow indptr indices values B LB N LC Out M)"
proof (cases "M = 0")
  case True
  then show ?thesis by (simp add: gemm_csr_drm_as_dcm_def dcm_res_0)
next
  case False
  have len: "length indptr = M + 1" and srt: "sorted indptr" and z: "indptr ! 0 = 0"
    using v by (auto simp: valid_csr_def)
  have r0: "rd indptr 0 = Some 0" using len z by (simp add: rd_def)
  have rm: "rd indptr (int M) = Some (indptr ! M)" using len by (simp add: rd_nat)
  let ?G = "dcm_res narrow indptr indices values B LB N LC Out"
  show ?thesis
  proof (cases "indptr ! M = 0")
    case True
    have e: "row_cnt indptr r = 0" if "r < M" for r
    proof -
      have "indptr ! (r + 1) \<le> indptr ! M" using srt len that by (intro sorted_nth_mono) auto
      then show ?thesis using True by (simp add: row_cnt_def)
    qed
    have "?G R = Out" if "R \<le> M" for R
      using that
    proof (induction R)
      case 0
      then show ?case by (simp add: dcm_res_0)
    next
      case (Suc R)
      then show ?case using e [of R] by (simp add: dcm_res_Suc_empty)
    qed
    then have "?G M = Out" by simp
    then show ?thesis using False r0 rm True by (simp add: gemm_csr_drm_as_dcm_def)
  next
    case nz: False
    let ?body = "gemm_csr_drm_as_dcm_row narrow junk (int N) indptr indices values B (int LB) (int LC)"
    let ?I = "\<lambda>R (st :: 'a list \<times> 'a list option).
        fst st = ?G R \<and> (case snd st of None \<Rightarrow> True | Some b \<Rightarrow> length b = LC)"
    have "\<exists>s'. for_loop [0..0 + int M - 1] ?body (Out, None) = Some s' \<and> ?I M s'"
    proof (rule for_loop_count [where I = ?I])
      show "?I 0 (Out, None)" by (simp add: dcm_res_0)
    next
      fix R st assume R: "R < M" and st: "?I R st"
      obtain O1 T1 where s1: "st = (O1, T1)" by (cases st)
      have o1: "O1 = ?G R" and t1: "case T1 of None \<Rightarrow> True | Some b \<Rightarrow> length b = LC"
        using st by (simp_all add: s1)
      note row = valid_csr_row [OF v R]
      have 1: "rd indptr (int R) = Some (int (row_lo indptr R))"
        using rd_nat [of R indptr] len R row(1) by simp
      have 2: "rd indptr (int R + 1) = Some (int (row_lo indptr R + row_cnt indptr R))"
        using rd_nat [of "R + 1" indptr] len R row(2) by (simp add: add.commute)
      show "\<exists>t'. ?body (0 + int R) st = Some t' \<and> ?I (Suc R) t'"
      proof (cases "0 < row_cnt indptr R")
        case False
        then have "?body (int R) st = Some st"
          using dcm_row_empty [OF 1 2, of narrow junk "int N" indices "values" B "int LB" "int LC" st] by simp
        then show ?thesis using st False by (simp add: dcm_res_Suc_empty)
      next
        case True
        define wp where "wp = (case T1 of None \<Rightarrow> replicate (nat (int LC)) junk | Some buf \<Rightarrow> buf)"
        have lwp: "length wp = LC" using t1 by (simp add: wp_def split: option.splits)
        have 3: "memset_zero wp (int LB) = Some (memset_res wp LB)"
          using lbc lwp by (simp add: memset_zero_result)
        have 4: "for_loop [int (row_lo indptr R)..int (row_lo indptr R) + int (row_cnt indptr R) - 1]
                 (\<lambda>col Out. do {
                    v \<leftarrow> rd values col;
                    c \<leftarrow> rd indices col;
                    axpy narrow (int N) v B (c * int LB) 1 Out (int 0) 1 }) (memset_res wp LB)
               = Some (row_res narrow indices values B LB N (row_lo indptr R) (memset_res wp LB) 0 (row_cnt indptr R))"
        proof (rule row_loop)
          show "row_lo indptr R + row_cnt indptr R \<le> length indices" by (rule row(3))
          show "row_lo indptr R + row_cnt indptr R \<le> length values" by (rule row(4))
          show "0 + N \<le> length (memset_res wp LB)" using nlb lbc lwp by (simp add: memset_res_def)
        next
          fix u assume "row_lo indptr R \<le> u" "u < row_lo indptr R + row_cnt indptr R"
          then have "u < length indices" using row(3) by simp
          from valid_csr_index [OF v this] fB [of "nat (indices ! u)"]
          show "0 \<le> indices ! u \<and> nat (indices ! u) * LB + N \<le> length B" by simp
        qed
        let ?w = "row_res narrow indices values B LB N (row_lo indptr R) (memset_res wp LB) 0 (row_cnt indptr R)"
        have 5: "tcopy (int N) ?w 0 1 O1 (int R) (int LC) = Some (tcopy_res ?w O1 R LC N)"
        proof (rule tcopy_result)
          show "R < LC" using R mlc by simp
          show "N \<le> length ?w" using nlb lbc lwp by (simp add: length_row_res memset_res_def)
          show "\<And>j. j < N \<Longrightarrow> R + j * LC < length O1" using fO [OF R] by (simp add: o1 length_dcm_res)
        qed
        have 6: "tcopy_res ?w O1 R LC N = ?G (Suc R)"
          unfolding o1 using dcm_res_Suc [OF True nlb, of wp] lbc lwp by simp
        have "?body (int R) st = Some (?G (Suc R), Some ?w)"
          using 1 2 3 4 5 True
          by (simp add: gemm_csr_drm_as_dcm_row_def s1 wp_def [symmetric] 6)
        moreover have "length ?w = LC" using lwp by (simp add: length_row_res memset_res_def)
        ultimately show ?thesis by simp
      qed
    qed
    then show ?thesis using False r0 rm nz by (auto simp: gemm_csr_drm_as_dcm_def)
  qed
qed

text \<open>
  Claim C6. In materialize mode the step of the loop for a row without stored entries
  returns the output and the scratch buffer as they are (nothing is zeroed or copied),
  and whenever the kernel returns, the output positions \<open>r + j * ldc\<close> of such a row
  (those the strided copy of the row would write) hold what they held before, so they
  stay zero in a zeroed output. For a matrix without stored entries both kernels
  return the output unchanged, without any access to the dense buffers, and so they do
  whenever the number of rows is not positive, whatever the other arguments are.
\<close>

theorem gemm_empty_rows_untouched:
  fixes narrow :: "'v \<Rightarrow> 'a::{zero,plus,times,one}"
  assumes v: "valid_csr M K indptr indices values" and mlc: "M \<le> LC"
  shows "(\<forall>r<M. row_cnt indptr r = 0 \<longrightarrow>
            (\<forall>st. gemm_csr_drm_as_dcm_row narrow junk (int N) indptr indices values
                     DenseMat (int LB) (int LC) (int r) st = Some st)
          \<and> (\<forall>Out. gemm_csr_drm_as_dcm narrow junk (int M) (int N) indptr indices values
                      DenseMat (int LB) OutputMat (int LC) = Some Out \<longrightarrow>
                 length Out = length OutputMat
               \<and> (\<forall>j. r + j * LC < length OutputMat \<longrightarrow> Out ! (r + j * LC) = OutputMat ! (r + j * LC))))
       \<and> (indices = [] \<longrightarrow>
            gemm_csr_drm_as_drm narrow (int M) (int N) indptr indices values
              DenseMat (int LB) OutputMat (int LC) = Some OutputMat
          \<and> gemm_csr_drm_as_dcm narrow junk (int M) (int N) indptr indices values
              DenseMat (int LB) OutputMat (int LC) = Some OutputMat)
       \<and> (\<forall>m n ip ix vs B ldb ldc. m \<le> 0 \<longrightarrow>
            gemm_csr_drm_as_drm narrow m n ip ix vs B ldb OutputMat ldc = Some OutputMat
          \<and> gemm_csr_drm_as_dcm narrow junk m n ip ix vs B ldb OutputMat ldc = Some OutputMat)"
proof (intro conjI allI impI)
  fix r st assume r: "r < M" and e: "row_cnt indptr r = 0"
  note row = valid_csr_row [OF v r]
  have len: "length indptr = M + 1" using v by (simp add: valid_csr_def)
  have 1: "rd indptr (int r) = Some (int (row_lo indptr r))"
    using rd_nat [of r indptr] len r row(1) by simp
  have 2: "rd indptr (int r + 1) = Some (int (row_lo indptr r))"
    using rd_nat [of "r + 1" indptr] len r row(2) e by (simp add: add.commute)
  show "gemm_csr_drm_as_dcm_row narrow junk (int N) indptr indices values
          DenseMat (int LB) (int LC) (int r) st = Some st"
    using 1 2 by (rule dcm_row_empty) simp
  {
    fix Out
    assume s: "gemm_csr_drm_as_dcm narrow junk (int M) (int N) indptr indices values
                 DenseMat (int LB) OutputMat (int LC) = Some Out"
    have fr: "length Out = length OutputMat \<and> (\<forall>p<length OutputMat. p mod LC = r \<longrightarrow> Out ! p = OutputMat ! p)"
    proof (cases "rd indptr 0 = rd indptr (int M)")
      case True
      then have "Out = OutputMat" using s r by (auto simp: gemm_csr_drm_as_dcm_def bind_eq_Some_conv)
      then show ?thesis by simp
    next
      case False
      with s r obtain temp' where l: "for_loop [0..int M - 1]
                (gemm_csr_drm_as_dcm_row narrow junk (int N) indptr indices values DenseMat (int LB) (int LC))
                (OutputMat, None) = Some (Out, temp')"
        by (auto simp: gemm_csr_drm_as_dcm_def bind_eq_Some_conv split: if_splits)
      show ?thesis using l mlc
      proof (rule dcm_loop_frame)
        fix lo hi assume "rd indptr (int r) = Some lo" "rd indptr (int r + 1) = Some hi"
        then show "\<not> lo < hi" using 1 2 by simp
      qed
    qed
    show "length Out = length OutputMat" using fr by simp
    fix j assume j: "r + j * LC < length OutputMat"
    have "(r + j * LC) mod LC = r" using r mlc by simp
    then show "Out ! (r + j * LC) = OutputMat ! (r + j * LC)" using fr j by simp
  }
next
  assume e: "indices = []"
  note z = valid_csr_no_entries [OF v e]
  show "gemm_csr_drm_as_drm narrow (int M) (int N) indptr indices values
              DenseMat (int LB) OutputMat (int LC) = Some OutputMat"
    using z by (simp add: gemm_csr_drm_as_drm_def)
  show "gemm_csr_drm_as_dcm narrow junk (int M) (int N) indptr indices values
              DenseMat (int LB) OutputMat (int LC) = Some OutputMat"
    using z by (simp add: gemm_csr_drm_as_dcm_def)
next
  fix m n :: int and ip ix :: "int list" and vs :: "'v list" and B :: "'a list" and ldb ldc :: int
  assume "m \<le> 0"
  then show "gemm_csr_drm_as_drm narrow m n ip ix vs B ldb OutputMat ldc = Some OutputMat"
    and "gemm_csr_drm_as_dcm narrow junk m n ip ix vs B ldb OutputMat ldc = Some OutputMat"
    by (simp_all add: gemm_csr_drm_as_drm_def gemm_csr_drm_as_dcm_def)
qed


lemmas kernel_eval_defs =
  gemm_csr_drm_as_drm_def gemm_csr_drm_as_dcm_def gemm_csr_drm_as_dcm_row_def memset_zero_def
  tcopy_def scopy_def axpy_def saxpy_def saxpy_unit_def saxpy_strided_def rd_def wr_def upto.simps

text \<open>
  A 3-row matrix whose middle row is empty, and a 2-row matrix without entries.
\<close>

theorem gemm_empty_rows_untouched_witness:
  "valid_csr 3 1 [0, 1, 1, 2] [0, 0] [5, 3 :: real] \<and> (3 :: nat) \<le> 3
   \<and> row_cnt [0, 1, 1, 2] 1 = 0
   \<and> gemm_csr_drm_as_dcm_row (\<lambda>v. v) 9 2 [0, 1, 1, 2] [0, 0] [5, 3 :: real] [7, 8] 2 3 1
         ([35, 0, 0, 40, 0, 0], Some [35, 40, 9]) = Some ([35, 0, 0, 40, 0, 0], Some [35, 40, 9])
   \<and> gemm_csr_drm_as_dcm (\<lambda>v. v) 9 3 2 [0, 1, 1, 2] [0, 0] [5, 3 :: real] [7, 8] 2 [0, 0, 0, 0, 0, 0] 3
       = Some [35, 0, 21, 40, 0, 24]
   \<and> valid_csr 2 1 [0, 0, 0] [] ([] :: real list)
   \<and> gemm_csr_drm_as_drm (\<lambda>v. v) 2 2 [0, 0, 0] [] ([] :: real list) [7, 8] 2 [1, 2, 3, 4 :: real] 2
       = Some [1, 2, 3, 4]
   \<and> gemm_csr_drm_as_dcm (\<lambda>v. v) 9 2 2 [0, 0, 0] [] ([] :: real list) [7, 8] 2 [1, 2, 3, 4 :: real] 2
       = Some [1, 2, 3, 4]
   \<and> gemm_csr_drm_as_drm (\<lambda>v. v) 0 2 [0] [] ([] :: real list) [] 2 ([] :: real list) 2 = Some []
   \<and> gemm_csr_drm_as_dcm (\<lambda>v. v) 9 0 2 [0] [] ([] :: real list) [] 2 ([] :: real list) 0 = Some []"
proof -
  have v1: "valid_csr 3 1 [0, 1, 1, 2] [0, 0] [5, 3 :: real]" by (simp add: valid_csr_def)
  have v2: "valid_csr 2 1 [0, 0, 0] [] ([] :: real list)" by (simp add: valid_csr_def)
  have c: "row_cnt [0, 1, 1, 2] 1 = 0" by (simp add: row_cnt_def)
  have k: "gemm_csr_drm_as_dcm (\<lambda>v. v) 9 3 2 [0, 1, 1, 2] [0, 0] [5, 3 :: real] [7, 8] 2 [0, 0, 0, 0, 0, 0] 3
       = Some [35, 0, 21, 40, 0, 24]"
    by (simp add: kernel_eval_defs)
  have l: "(1 :: nat) < 3" and m: "(3 :: nat) \<le> 3" and m2: "(2 :: nat) \<le> 2" by simp_all
  note t = gemm_empty_rows_untouched [OF v1 m, of "\<lambda>v. v" 9 2 "[7, 8]" 2 "[0, 0, 0, 0, 0, 0]",
      THEN conjunct1, rule_format, of 1]
  from t [OF l c]
  have r: "gemm_csr_drm_as_dcm_row (\<lambda>v. v) 9 2 [0, 1, 1, 2] [0, 0] [5, 3 :: real] [7, 8] 2 3 1
         ([35, 0, 0, 40, 0, 0], Some [35, 40, 9]) = Some ([35, 0, 0, 40, 0, 0], Some [35, 40, 9])"
    by simp
  from gemm_empty_rows_untouched [OF v2 m2, of "\<lambda>v. v" 9 2 "[7, 8]" 2 "[1, 2, 3, 4]"]
  have e: "gemm_csr_drm_as_drm (\<lambda>v. v) 2 2 [0, 0, 0] [] ([] :: real list) [7, 8] 2 [1, 2, 3, 4 :: real] 2
       = Some [1, 2, 3, 4]
    \<and> gemm_csr_drm_as_dcm (\<lambda>v. v) 9 2 2 [0, 0, 0] [] ([] :: real list) [7, 8] 2 [1, 2, 3, 4 :: real] 2
       = Some [1, 2, 3, 4]"
    by simp
  have z: "gemm_csr_drm_as_drm (\<lambda>v. v) 0 2 [0] [] ([] :: real list) [] 2 ([] :: real list) 2 = Some []
    \<and> gemm_csr_drm_as_dcm (\<lambda>v. v) 9 0 2 [0] [] ([] :: real list) [] 2 ([] :: real list) 0 = Some []"
    by (simp add: gemm_csr_drm_as_drm_def gemm_csr_drm_as_dcm_def)
  show ?thesis using v1 v2 c k r e z by simp
qed

text \<open>
  Claim C4. The scratch buffer is allocated with \<open>ldc\<close> elements, the leading dimension
  of the output, while \<^verbatim>\<open>memset\<close> clears \<open>ldb\<close> elements of it. A CSR matrix with
  one row times a dense operand with two columns (the shapes \<^verbatim>\<open>tcrossprod_csr_dense\<close>
  passes: \<open>ldb = n = 2\<close>, \<open>ldc = m = 1\<close>) gives a scratch buffer of one element,
  and the \<^verbatim>\<open>memset\<close> over two elements leaves it: the kernel has an access out of
  bounds on a valid input.
\<close>

theorem gemm_csr_drm_as_dcm_scratch_overflow:
  "gemm_csr_drm_as_dcm (\<lambda>v. v) junk 1 2 [0, 1] [0] [5 :: real] [7, 8] 2 [0, 0] 1 = None
   \<and> length (replicate (nat 1) junk) = 1
   \<and> memset_zero (replicate (nat 1) junk) 2 = None"
  by (simp add: kernel_eval_defs)

text \<open>
  The input is well formed: a valid CSR matrix with one row and one column, a dense
  operand of one row of two elements, and an output of two columns of one element.
  It has \<open>ldc < ldb\<close>; lemma \<open>gemm_dcm_result\<close> covers the inputs with
  \<open>ldb \<le> ldc\<close>, where every access to the scratch buffer is in bounds.
\<close>

lemma scratch_overflow_input_valid:
  "valid_csr 1 1 [0, 1] [0] [5 :: real] \<and> fits 1 2 2 [7, 8 :: real] \<and> length [0, 0 :: real] = 2 * 1"
  by (simp add: valid_csr_def fits_def)

section \<open>The two loops of saxpy\<close>

text \<open>
  Claim C8. With unit strides and \<open>alpha = 1\<close>, \<^verbatim>\<open>saxpy\<close> takes the elementwise-add
  loop, and that loop leaves the same destination (and fails on the same accesses) as
  the strided loop \<open>y[i*incy] += alpha * x[i*incx]\<close> run with the same arguments.
  The one fact about the arithmetic that is used is that multiplying by one returns the
  other factor unchanged, which holds for IEEE single precision.
\<close>

theorem saxpy_unit_path_same_as_strided:
  fixes x y :: "'a::{plus,times,one} list"
  assumes "\<And>v::'a. 1 * v = v"
  shows "saxpy n 1 x xoff 1 y yoff 1 = saxpy_unit n x xoff y yoff
       \<and> saxpy_unit n x xoff y yoff = saxpy_strided n 1 x xoff 1 y yoff 1"
  using saxpy_unit_eq_strided [OF assms] by (simp add: saxpy_def)

text \<open>
  Three elements, on both paths.
\<close>

theorem saxpy_unit_path_same_as_strided_witness:
  "saxpy 3 1 [1, 2, 3 :: real] 0 1 [10, 20, 30] 0 1 = Some [11, 22, 33]
   \<and> saxpy_strided 3 1 [1, 2, 3 :: real] 0 1 [10, 20, 30] 0 1 = Some [11, 22, 33]"
proof -
  have u: "saxpy_unit 3 [1, 2, 3 :: real] 0 [10, 20, 30] 0 = Some [11, 22, 33]"
    by (simp add: saxpy_unit_def rd_def wr_def upto.simps)
  have "\<And>v::real. 1 * v = v" by simp
  from saxpy_unit_path_same_as_strided [OF this, of 3 "[1, 2, 3]" 0 "[10, 20, 30]" 0] u
  show ?thesis by simp
qed

section \<open>Sparse rows times a dense vector: results and missing values\<close>

lemma dvec_row_Suc:
  "dvec_row contrib accum zero indices values y lo (Suc q)
   = accum (dvec_row contrib accum zero indices values y lo q)
       (contrib (y ! nat (indices ! (lo + q))) (values ! (lo + q)))"
  by (simp add: dvec_row_def)

lemma dvec_row_loop:
  assumes "lo + cnt \<le> length indices" "lo + cnt \<le> length values"
    and "\<And>t. lo \<le> t \<Longrightarrow> t < lo + cnt \<Longrightarrow> 0 \<le> indices ! t \<and> nat (indices ! t) < length y"
  shows "for_loop [int lo..int lo + int cnt - 1] (\<lambda>ix val. do {
                c \<leftarrow> rd indices ix;
                yv \<leftarrow> rd y c;
                xv \<leftarrow> rd values ix;
                Some (accum val (contrib yv xv)) }) zero
         = Some (dvec_row contrib accum zero indices values y lo cnt)"
proof -
  let ?body = "\<lambda>ix val. do {
                c \<leftarrow> rd indices ix;
                yv \<leftarrow> rd y c;
                xv \<leftarrow> rd values ix;
                Some (accum val (contrib yv xv)) }"
  let ?R = "dvec_row contrib accum zero indices values y lo"
  have "\<exists>s'. for_loop [int lo..int lo + int cnt - 1] ?body zero = Some s' \<and> s' = ?R cnt"
  proof (rule for_loop_count [where I = "\<lambda>q t. t = ?R q"])
    show "zero = ?R 0" by (simp add: dvec_row_def)
  next
    fix q t assume q: "q < cnt" and t: "t = ?R q"
    have 1: "rd values (int lo + int q) = Some (values ! (lo + q))"
      using rd_nat [of "lo + q" "values"] q assms by simp
    have 2: "rd indices (int lo + int q) = Some (indices ! (lo + q))"
      using rd_nat [of "lo + q" indices] q assms by simp
    from assms(3) [of "lo + q"] q
    have c: "0 \<le> indices ! (lo + q)" "nat (indices ! (lo + q)) < length y" by auto
    have 3: "rd y (indices ! (lo + q)) = Some (y ! nat (indices ! (lo + q)))"
      using c by (simp add: rd_def)
    show "\<exists>t'. ?body (int lo + int q) t = Some t' \<and> t' = ?R (Suc q)"
      using 1 2 3 by (simp add: t dvec_row_Suc)
  qed
  then show ?thesis by simp
qed

lemma dvec_res_Suc:
  "R < M \<Longrightarrow>
    (dvec_res contrib accum zero indptr indices values y M R)
      [R := dvec_row contrib accum zero indices values y (row_lo indptr R) (row_cnt indptr R)]
    = dvec_res contrib accum zero indptr indices values y M (Suc R)"
  by (auto simp: dvec_res_def nth_list_update intro!: nth_equalityI)

lemma dvec_result:
  assumes v: "valid_csr M K indptr indices values" and ky: "K \<le> length y"
  shows "matmul_csr_dvec contrib accum zero indptr indices values y
       = Some (map (\<lambda>r. dvec_row contrib accum zero indices values y (row_lo indptr r) (row_cnt indptr r)) [0..<M])"
proof -
  have len: "length indptr = M + 1" using v by (auto simp: valid_csr_def)
  let ?inner = "\<lambda>ix val. do {
                c \<leftarrow> rd indices ix;
                yv \<leftarrow> rd y c;
                xv \<leftarrow> rd values ix;
                Some (accum val (contrib yv xv)) }"
  let ?body = "\<lambda>row out. do {
            lo \<leftarrow> rd indptr row;
            hi \<leftarrow> rd indptr (row + 1);
            val \<leftarrow> for_loop [lo..hi - 1] ?inner zero;
            wr out row val }"
  let ?G = "dvec_res contrib accum zero indptr indices values y M"
  have "\<exists>s'. for_loop [0..0 + int M - 1] ?body (replicate M zero) = Some s' \<and> s' = ?G M"
  proof (rule for_loop_count [where I = "\<lambda>R t. t = ?G R"])
    show "replicate M zero = ?G 0" by (auto simp: dvec_res_def intro!: nth_equalityI)
  next
    fix R t assume R: "R < M" and t: "t = ?G R"
    note row = valid_csr_row [OF v R]
    have 1: "rd indptr (int R) = Some (int (row_lo indptr R))"
      using rd_nat [of R indptr] len R row(1) by simp
    have 2: "rd indptr (int R + 1) = Some (int (row_lo indptr R + row_cnt indptr R))"
      using rd_nat [of "R + 1" indptr] len R row(2) by (simp add: add.commute)
    have 3: "for_loop [int (row_lo indptr R)..int (row_lo indptr R) + int (row_cnt indptr R) - 1] ?inner zero
               = Some (dvec_row contrib accum zero indices values y (row_lo indptr R) (row_cnt indptr R))"
    proof (rule dvec_row_loop)
      show "row_lo indptr R + row_cnt indptr R \<le> length indices" by (rule row(3))
      show "row_lo indptr R + row_cnt indptr R \<le> length values" by (rule row(4))
    next
      fix u assume "row_lo indptr R \<le> u" "u < row_lo indptr R + row_cnt indptr R"
      then have "u < length indices" using row(3) by simp
      from valid_csr_index [OF v this] ky
      show "0 \<le> indices ! u \<and> nat (indices ! u) < length y" by simp
    qed
    have 4: "wr t (int R) x = Some (t[R := x])" for x
      using wr_nat [of R t x] R by (simp add: t dvec_res_def)
    show "\<exists>t'. ?body (0 + int R) t = Some t' \<and> t' = ?G (Suc R)"
      using 1 2 3 4 dvec_res_Suc [OF R, of contrib accum zero indptr indices "values" y]
      by (simp add: t)
  qed
  moreover have "?G M = map (\<lambda>r. dvec_row contrib accum zero indices values y (row_lo indptr r) (row_cnt indptr r)) [0..<M]"
    by (simp add: dvec_res_def)
  ultimately show ?thesis using len by (auto simp: matmul_csr_dvec_def)
qed

lemma NA_REAL_plus [simp]: "NA_REAL + x = NA_REAL" "x + NA_REAL = NA_REAL"
  by (cases x; simp)+






section \<open>The accumulator of the dense-vector kernel\<close>

text \<open>
  Claim C5, as stated, fails for the single-precision variant: the accumulator is a
  \<^verbatim>\<open>float\<close>. On the row \<open>[2^24, 1, 1]\<close> times \<open>[1, 1, 1]\<close> each partial sum
  \<open>2^24 + 1\<close> is rounded back to \<open>2^24\<close>, so the kernel returns \<open>16777216\<close>, while
  the sum accumulated in double precision, \<open>16777218\<close>, is a \<^verbatim>\<open>float\<close>.
\<close>

theorem matmul_csr_dvec_float32_rounds_every_term:
  "matmul_csr_dvec_float32 (\<lambda>f. f) float32_of_int [0, 3] [0, 1, 2] [16777216, 1, 1] [1, 1, 1]
     = Some [16777216]
   \<and> matmul_csr_dvec_float32_wide (\<lambda>f. f) float32_of_int [0, 3] [0, 1, 2] [16777216, 1, 1] [1, 1, 1]
     = Some [16777218]"
  by code_simp

text \<open>
  Claim C5, amended. The accumulator of a row has the element type of the output. For
  the numeric, integer and logical variants that is double precision: the value of a
  row is the sum, in double precision, of the terms of the variant. For the
  single-precision variant it is \<^verbatim>\<open>float\<close>: each product is formed in double precision
  and added to the widened accumulator, and the sum is converted to \<^verbatim>\<open>float\<close> after
  every term.
\<close>

theorem matmul_csr_dvec_accumulates_in_output_type:
  fixes widen :: "'f::zero \<Rightarrow> 'd::{zero,plus,times}"
  assumes v: "valid_csr M K indptr indices values" and vr: "valid_csr M K indptr indices valuesr"
    and kf: "K \<le> length yf" and kd: "K \<le> length yd" and ki: "K \<le> length yi"
  shows "matmul_csr_dvec_float32 widen narrow indptr indices values yf
           = Some (map (\<lambda>r. fold (\<lambda>t val. narrow (widen val + values ! t * widen (yf ! nat (indices ! t))))
                               [row_lo indptr r..<row_lo indptr r + row_cnt indptr r] 0) [0..<M])
       \<and> matmul_csr_dvec_numeric indptr indices values yd
           = Some (map (\<lambda>r. fold (\<lambda>t val. val + values ! t * yd ! nat (indices ! t))
                               [row_lo indptr r..<row_lo indptr r + row_cnt indptr r] 0) [0..<M])
       \<and> matmul_csr_dvec_integer indptr indices valuesr yi
           = Some (map (\<lambda>r. fold (\<lambda>t val. val + (if yi ! nat (indices ! t) = NA_INTEGER then NA_REAL
                                                  else valuesr ! t * Val (real_of_int (yi ! nat (indices ! t)))))
                               [row_lo indptr r..<row_lo indptr r + row_cnt indptr r] 0) [0..<M])
       \<and> matmul_csr_dvec_logical indptr indices valuesr yi
           = Some (map (\<lambda>r. fold (\<lambda>t val. val + (if yi ! nat (indices ! t) = NA_LOGICAL then NA_REAL
                                                  else valuesr ! t * (if yi ! nat (indices ! t) \<noteq> 0 then 1 else 0)))
                               [row_lo indptr r..<row_lo indptr r + row_cnt indptr r] 0) [0..<M])"
  by (simp add: matmul_csr_dvec_float32_def matmul_csr_dvec_numeric_def matmul_csr_dvec_integer_def
      matmul_csr_dvec_logical_def dvec_result [OF v kf] dvec_result [OF v kd] dvec_result [OF vr ki]
      dvec_row_def)

text \<open>
  The row \<open>[2^24, 1, 1]\<close> again: the fold that rounds after every term gives what the
  kernel returns.
\<close>

theorem matmul_csr_dvec_accumulates_in_output_type_witness:
  "valid_csr 1 3 [0, 3] [0, 1, 2] [16777216, 1, 1 :: int]
   \<and> valid_csr 1 3 [0, 3] [0, 1, 2] [Val 2, Val 3, Val 4]
   \<and> matmul_csr_dvec_float32 (\<lambda>f. f) float32_of_int [0, 3] [0, 1, 2] [16777216, 1, 1] [1, 1, 1]
       = Some [float32_of_int (float32_of_int (float32_of_int (0 + 16777216 * 1) + 1 * 1) + 1 * 1)]
   \<and> float32_of_int (float32_of_int (float32_of_int (0 + 16777216 * 1) + 1 * 1) + 1 * 1) = 16777216
   \<and> matmul_csr_dvec_numeric [0, 3] [0, 1, 2] [16777216, 1, 1 :: int] [1, 1, 1] = Some [16777218]
   \<and> matmul_csr_dvec_integer [0, 3] [0, 1, 2] [Val 2, Val 3, Val 4] [1, 1, 1] = Some [Val 9]
   \<and> matmul_csr_dvec_logical [0, 3] [0, 1, 2] [Val 2, Val 3, Val 4] [1, 1, 1] = Some [Val 9]"
proof -
  have v: "valid_csr 1 3 [0, 3] [0, 1, 2] [16777216, 1, 1 :: int]" by (simp add: valid_csr_def)
  have vr: "valid_csr 1 3 [0, 3] [0, 1, 2] [Val 2, Val 3, Val 4]" by (simp add: valid_csr_def)
  have k: "3 \<le> length [1, 1, 1 :: int]" by simp
  have rows: "row_lo [0, 3] 0 = 0" "row_cnt [0, 3] 0 = 3" by (simp_all add: row_lo_def row_cnt_def)
  have u: "[0..<3] = [0, 1, 2]" by (simp add: upt_rec)
  have f: "float32_of_int (float32_of_int (float32_of_int (0 + 16777216 * 1) + 1 * 1) + 1 * 1) = 16777216"
    by code_simp
  note t = matmul_csr_dvec_accumulates_in_output_type [OF v vr k k k, of "\<lambda>f. f" float32_of_int]
  have 1: "matmul_csr_dvec_float32 (\<lambda>f. f) float32_of_int [0, 3] [0, 1, 2] [16777216, 1, 1] [1, 1, 1]
       = Some [float32_of_int (float32_of_int (float32_of_int (0 + 16777216 * 1) + 1 * 1) + 1 * 1)]"
    using t [THEN conjunct1] by (simp add: rows u)
  have 2: "matmul_csr_dvec_numeric [0, 3] [0, 1, 2] [16777216, 1, 1 :: int] [1, 1, 1] = Some [16777218]"
    using t [THEN conjunct2, THEN conjunct1] by (simp add: rows u)
  have 3: "matmul_csr_dvec_integer [0, 3] [0, 1, 2] [Val 2, Val 3, Val 4] [1, 1, 1] = Some [Val 9]"
    using t [THEN conjunct2, THEN conjunct2, THEN conjunct1]
    by (simp add: rows u NA_INTEGER_def zero_rdouble_def)
  have 4: "matmul_csr_dvec_logical [0, 3] [0, 1, 2] [Val 2, Val 3, Val 4] [1, 1, 1] = Some [Val 9]"
    using t [THEN conjunct2, THEN conjunct2, THEN conjunct2]
    by (simp add: rows u NA_LOGICAL_def NA_INTEGER_def zero_rdouble_def one_rdouble_def)
  show ?thesis using v vr 1 2 3 4 f by simp
qed

section \<open>Sparse rows times a sparse vector: the merge computes the dot product\<close>
















section \<open>The outer-product kernels\<close>




























lemma for_loop_cong:
  "(\<And>i s. i \<in> set xs \<Longrightarrow> f i s = g i s) \<Longrightarrow> for_loop xs f s = for_loop xs g s"
  by (induction xs arbitrary: s) (auto split: option.splits)

lemma rd_first_agree:
  assumes a: "agree_on_first indptr vs vs'"
    and lo: "rd indptr ix = Some lo" and hi: "rd indptr (ix + 1) = Some hi" and lt: "lo < hi"
  shows "rd vs' lo = rd vs lo"
proof -
  from lo have i: "0 \<le> ix" "lo = indptr ! nat ix" by (auto simp: rd_def split: if_splits)
  from hi have h: "ix + 1 < int (length indptr)" "hi = indptr ! nat (ix + 1)"
    by (auto simp: rd_def split: if_splits)
  have n: "nat (ix + 1) = nat ix + 1" using i(1) by simp
  have "nat ix \<in> set [0..<length indptr - 1]" using i(1) h(1) by auto
  then have "vs' ! nat (indptr ! nat ix) = vs ! nat (indptr ! nat ix)"
    using a lt i(2) h(2) n by (simp add: agree_on_first_def)
  moreover have "length vs' = length vs" using a by (simp add: agree_on_first_def)
  ultimately show ?thesis by (simp add: rd_def i(2))
qed

text \<open>
  Claim C10. Both kernels read of the sparse values only the first stored value of each
  row with stored entries: two value arrays that agree there (and have the same
  length) give the same result, whatever the other values are. So the stored values of
  a row after its first never reach the output.
\<close>

theorem only_first_value_of_row_is_read:
  fixes vs vs' :: "'v list" and narrow :: "'v \<Rightarrow> 'a::{zero,one,plus,times}"
    and push :: "'y option \<Rightarrow> 'v \<Rightarrow> 'v"
  assumes a: "agree_on_first indptr vs vs'"
  shows "matmul_colvec_by_scolvecascsr_template narrow widen colvec indptr indices vs'
         = matmul_colvec_by_scolvecascsr_template narrow widen colvec indptr indices vs
       \<and> matmul_spcolvec_by_scolvecascsr push indptr indices vs' y_indices_base1 y_values y_length
         = matmul_spcolvec_by_scolvecascsr push indptr indices vs y_indices_base1 y_values y_length"
proof
  have "(do {
              lo \<leftarrow> rd indptr ix;
              hi \<leftarrow> rd indptr (ix + 1);
              if lo < hi then do {
                oip \<leftarrow> wr oip (ix + 1) dim;
                w \<leftarrow> rd vs' lo;
                oval \<leftarrow> axpy narrow dim w colvec 0 1 oval ncurr 1;
                oind \<leftarrow> iota oind ncurr dim 0;
                Some (oip, oind, oval, ncurr + dim) }
              else Some (oip, oind, oval, ncurr) })
      = (do {
              lo \<leftarrow> rd indptr ix;
              hi \<leftarrow> rd indptr (ix + 1);
              if lo < hi then do {
                oip \<leftarrow> wr oip (ix + 1) dim;
                w \<leftarrow> rd vs lo;
                oval \<leftarrow> axpy narrow dim w colvec 0 1 oval ncurr 1;
                oind \<leftarrow> iota oind ncurr dim 0;
                Some (oip, oind, oval, ncurr + dim) }
              else Some (oip, oind, oval, ncurr) })"
    for ix dim oip and oind :: "int list" and oval :: "'a list" and ncurr
    using rd_first_agree [OF a, of ix]
    by (cases "rd indptr ix"; cases "rd indptr (ix + 1)") simp_all
  then have "for_loop xs (\<lambda>ix (oip, oind, oval, ncurr). do {
              lo \<leftarrow> rd indptr ix;
              hi \<leftarrow> rd indptr (ix + 1);
              if lo < hi then do {
                oip \<leftarrow> wr oip (ix + 1) dim;
                w \<leftarrow> rd vs' lo;
                oval \<leftarrow> axpy narrow dim w colvec 0 1 oval ncurr 1;
                oind \<leftarrow> iota oind ncurr dim 0;
                Some (oip, oind, oval, ncurr + dim) }
              else Some (oip, oind, oval, ncurr) }) s
      = for_loop xs (\<lambda>ix (oip, oind, oval, ncurr). do {
              lo \<leftarrow> rd indptr ix;
              hi \<leftarrow> rd indptr (ix + 1);
              if lo < hi then do {
                oip \<leftarrow> wr oip (ix + 1) dim;
                w \<leftarrow> rd vs lo;
                oval \<leftarrow> axpy narrow dim w colvec 0 1 oval ncurr 1;
                oind \<leftarrow> iota oind ncurr dim 0;
                Some (oip, oind, oval, ncurr + dim) }
              else Some (oip, oind, oval, ncurr) }) s"
    for xs dim and s :: "int list \<times> int list \<times> 'a list \<times> int"
    by (intro for_loop_cong) (auto simp: split_def)
  then show "matmul_colvec_by_scolvecascsr_template narrow widen colvec indptr indices vs'
         = matmul_colvec_by_scolvecascsr_template narrow widen colvec indptr indices vs"
    by (simp add: matmul_colvec_by_scolvecascsr_template_def Let_def)
next
  have "(do {
            lo \<leftarrow> rd indptr row;
            hi \<leftarrow> rd indptr (row + 1);
            if lo < hi then do {
              xv \<leftarrow> rd vs' lo;
              Some (oi @ [row], ov @ [push yval xv], ncurr + 1) }
            else Some (oi, ov, ncurr) })
      = (do {
            lo \<leftarrow> rd indptr row;
            hi \<leftarrow> rd indptr (row + 1);
            if lo < hi then do {
              xv \<leftarrow> rd vs lo;
              Some (oi @ [row], ov @ [push yval xv], ncurr + 1) }
            else Some (oi, ov, ncurr) })"
    for row yval and oi :: "int list" and ov :: "'v list" and ncurr :: int
    using rd_first_agree [OF a, of row]
    by (cases "rd indptr row"; cases "rd indptr (row + 1)") simp_all
  then have "for_loop xs (\<lambda>row (oi, ov, ncurr). do {
            lo \<leftarrow> rd indptr row;
            hi \<leftarrow> rd indptr (row + 1);
            if lo < hi then do {
              xv \<leftarrow> rd vs' lo;
              Some (oi @ [row], ov @ [push yval xv], ncurr + 1) }
            else Some (oi, ov, ncurr) }) s
      = for_loop xs (\<lambda>row (oi, ov, ncurr). do {
            lo \<leftarrow> rd indptr row;
            hi \<leftarrow> rd indptr (row + 1);
            if lo < hi then do {
              xv \<leftarrow> rd vs lo;
              Some (oi @ [row], ov @ [push yval xv], ncurr + 1) }
            else Some (oi, ov, ncurr) }) s"
    for xs yval and s :: "int list \<times> 'v list \<times> int"
    by (intro for_loop_cong) (auto simp: split_def)
  then show "matmul_spcolvec_by_scolvecascsr push indptr indices vs' y_indices_base1 y_values y_length
         = matmul_spcolvec_by_scolvecascsr push indptr indices vs y_indices_base1 y_values y_length"
    by (simp add: matmul_spcolvec_by_scolvecascsr_def Let_def)
qed

text \<open>
  A first row with two stored entries: changing the second value from 4 to 99 changes
  neither result.
\<close>

theorem only_first_value_of_row_is_read_witness:
  "agree_on_first [0, 2, 2, 3] [3, 4, 5 :: real] [3, 99, 5]
   \<and> matmul_colvec_by_scolvecascsr [10, 20] [0, 2, 2, 3] [0, 1, 0] [3, 99, 5 :: real]
     = Some ([0, 2, 2, 4], [0, 1, 0, 1, 0, 0], [30, 60, 50, 100, 0, 0])
   \<and> matmul_colvec_by_scolvecascsr [10, 20] [0, 2, 2, 3] [0, 1, 0] [3, 4, 5 :: real]
     = Some ([0, 2, 2, 4], [0, 1, 0, 1, 0, 0], [30, 60, 50, 100, 0, 0])
   \<and> matmul_spcolvec_by_scolvecascsr_numeric [0, 2, 2, 3] [0, 1, 0] [3, 99, 5 :: real] [1, 3] [10, 20, 30] 3
     = Some ([0, 2, 2, 4], [0, 2, 0, 2], [30, 50, 90, 150])
   \<and> matmul_spcolvec_by_scolvecascsr_numeric [0, 2, 2, 3] [0, 1, 0] [3, 4, 5 :: real] [1, 3] [10, 20, 30] 3
     = Some ([0, 2, 2, 4], [0, 2, 0, 2], [30, 50, 90, 150])"
proof -
  have a: "agree_on_first [0, 2, 2, 3] [3, 4, 5 :: real] [3, 99, 5]"
    by (simp add: agree_on_first_def upt_rec numeral_3_eq_3)
  have 1: "matmul_colvec_by_scolvecascsr [10, 20] [0, 2, 2, 3] [0, 1, 0] [3, 4, 5 :: real]
     = Some ([0, 2, 2, 4], [0, 1, 0, 1, 0, 0], [30, 60, 50, 100, 0, 0])"
    by code_simp
  have 2: "matmul_spcolvec_by_scolvecascsr_numeric [0, 2, 2, 3] [0, 1, 0] [3, 4, 5 :: real] [1, 3] [10, 20, 30] 3
     = Some ([0, 2, 2, 4], [0, 2, 0, 2], [30, 50, 90, 150])"
    by code_simp
  note t = only_first_value_of_row_is_read [OF a, of "\<lambda>v. v" "\<lambda>v. v" "[10, 20]" "[0, 1, 0]"
      "\<lambda>yval xv. the yval * xv" "[1, 3]" "Some [10, 20, 30]" 3]
  show ?thesis
    using a 1 2 t
    by (simp add: matmul_colvec_by_scolvecascsr_def matmul_spcolvec_by_scolvecascsr_numeric_def)
qed

end
